theory Spec2Isabelle
  imports Main "HOL-Library.Word" "HOL-Library.Sublist"
begin

section \<open>Python values, errors and the world the script runs in\<close>

text \<open>
  \<^verbatim>\<open>sync.py\<close> reads Traefik's \<^verbatim>\<open>acme.json\<close>, picks one certificate, and writes it into
  AdGuard Home's YAML configuration. The objects that \<^verbatim>\<open>json.load\<close> and \<^verbatim>\<open>yaml.load\<close>
  hand to the script are modelled as a tree of Python values. A \<^verbatim>\<open>str\<close> is a list of
  characters, a \<^verbatim>\<open>dict\<close> an association list in insertion order with \<^verbatim>\<open>str\<close> keys, a
  \<^verbatim>\<open>float\<close> its 64 IEEE bits. Two mappings of a document never share one object: YAML
  anchors and aliases, which make PyYAML return the same \<^verbatim>\<open>dict\<close> twice, are outside the
  model, as are the other Python objects \<^verbatim>\<open>yaml.Loader\<close> can build.
\<close>

datatype pyval =
    PNone
  | PBool bool
  | PInt int
  | PFloat "64 word"
  | PStr string
  | PList "pyval list"
  | PDict "(string \<times> pyval) list"

text \<open>
  Every \<^verbatim>\<open>raise\<close> the script can meet is a value. \<open>SystemExit\<close> is what \<^verbatim>\<open>sys.exit(msg)\<close>
  raises; the other constructors are the exceptions of the interpreter, of the operating
  system and of the libraries.
\<close>

datatype error =
    SystemExit string
  | IndexError
  | KeyError pyval
  | TypeError
  | AttributeError
  | FileNotFoundError
  | PermissionError
  | OSError
  | SameFileError
  | JSONDecodeError
  | YAMLError
  | Base64Error
  | UnicodeDecodeError

type_synonym path = string

record inode =
  content :: string
  mode :: nat
  uid :: nat
  gid :: nat

type_synonym filesystem = "path \<Rightarrow> inode option"

text \<open>
  The world is the file system, every earlier state of the file system (oldest first), the
  lines given to the logger, and whether \<^verbatim>\<open>configure_yaml\<close> has installed its presenter.
\<close>

record world =
  fs :: filesystem
  history :: "filesystem list"
  logged :: "string list"
  str_presenter :: bool

datatype syscall =
    Open_read path
  | Open_write path
  | Write path
  | Chmod path
  | Chown path

text \<open>
  What the script does not contain is a parameter: the parsers and the serializer, the two
  decoders, and the operating system's answer to each call (\<open>os_fault\<close> names the calls
  that fail and the exception they raise, \<open>short_write\<close> how many characters of a failing
  write reach the disk). \<open>create_mode\<close>, \<open>euid\<close> and \<open>egid\<close> are the mode and the owner a
  newly created file gets.
\<close>

record env =
  json_load :: "string \<Rightarrow> error + pyval"
  yaml_load :: "string \<Rightarrow> error + pyval"
  yaml_dump :: "bool \<Rightarrow> pyval \<Rightarrow> error + string"
  b64decode :: "string \<Rightarrow> error + string"
  utf8_decode :: "string \<Rightarrow> error + string"
  os_fault :: "syscall \<Rightarrow> error option"
  short_write :: nat
  create_mode :: nat
  euid :: nat
  egid :: nat

type_synonym 'a io = "world \<Rightarrow> (error + 'a) \<times> world"

definition return :: "'a \<Rightarrow> 'a io" where
  "return x = (\<lambda>w. (Inr x, w))"

definition raise :: "error \<Rightarrow> 'a io" where
  "raise e = (\<lambda>w. (Inl e, w))"

definition bind :: "'a io \<Rightarrow> ('a \<Rightarrow> 'b io) \<Rightarrow> 'b io" where
  "bind m f = (\<lambda>w. case m w of (Inl e, w') \<Rightarrow> (Inl e, w') | (Inr x, w') \<Rightarrow> f x w')"

definition lift :: "error + 'a \<Rightarrow> 'a io" where
  "lift r = (case r of Inl e \<Rightarrow> raise e | Inr x \<Rightarrow> return x)"

definition and_then :: "error + 'a \<Rightarrow> ('a \<Rightarrow> error + 'b) \<Rightarrow> error + 'b" where
  "and_then r f = (case r of Inl e \<Rightarrow> Inl e | Inr x \<Rightarrow> f x)"

definition init_world :: "filesystem \<Rightarrow> world" where
  "init_world f = \<lparr>fs = f, history = [], logged = [], str_presenter = False\<rparr>"

definition moments :: "world \<Rightarrow> filesystem list" where
  "moments w = history w @ [fs w]"

definition commit :: "filesystem \<Rightarrow> world \<Rightarrow> world" where
  "commit f w = w\<lparr>history := history w @ [fs w], fs := f\<rparr>"

text \<open>
  The process ends with status 0 when \<^verbatim>\<open>run\<close> returns, and with status 1 on
  \<^verbatim>\<open>sys.exit(msg)\<close> with a message and on every uncaught exception.
\<close>

definition exit_status :: "error + 'a \<Rightarrow> nat" where
  "exit_status r = (case r of Inl e \<Rightarrow> 1 | Inr x \<Rightarrow> 0)"

section \<open>Interpreter primitives\<close>

fun truthy :: "pyval \<Rightarrow> bool" where
  "truthy PNone = False"
| "truthy (PBool b) = b"
| "truthy (PInt i) = (i \<noteq> 0)"
| "truthy (PFloat x) = (take_bit 63 x \<noteq> 0)"
| "truthy (PStr s) = (s \<noteq> [])"
| "truthy (PList xs) = (xs \<noteq> [])"
| "truthy (PDict al) = (al \<noteq> [])"

text \<open>\<^verbatim>\<open>obj[k]\<close> with a \<^verbatim>\<open>str\<close> key: only a \<^verbatim>\<open>dict\<close> accepts it.\<close>

fun getitem :: "pyval \<Rightarrow> string \<Rightarrow> error + pyval" where
  "getitem (PDict al) k = (case map_of al k of None \<Rightarrow> Inl (KeyError (PStr k)) | Some v \<Rightarrow> Inr v)"
| "getitem _ k = Inl TypeError"

text \<open>\<^verbatim>\<open>obj[0]\<close>: a \<^verbatim>\<open>dict\<close> with \<^verbatim>\<open>str\<close> keys has no key \<^verbatim>\<open>0\<close>.\<close>

fun getitem0 :: "pyval \<Rightarrow> error + pyval" where
  "getitem0 (PList []) = Inl IndexError"
| "getitem0 (PList (x # xs)) = Inr x"
| "getitem0 (PStr []) = Inl IndexError"
| "getitem0 (PStr (c # cs)) = Inr (PStr [c])"
| "getitem0 (PDict al) = Inl (KeyError (PInt 0))"
| "getitem0 _ = Inl TypeError"

text \<open>\<^verbatim>\<open>d[k] = v\<close> on a \<^verbatim>\<open>dict\<close>: an existing key keeps its place, a new key goes last.\<close>

fun dict_set :: "string \<Rightarrow> pyval \<Rightarrow> (string \<times> pyval) list \<Rightarrow> (string \<times> pyval) list" where
  "dict_set k v [] = [(k, v)]"
| "dict_set k v (p # ps) = (if fst p = k then (k, v) # ps else p # dict_set k v ps)"

text \<open>\<^verbatim>\<open>obj[k1][k2] = v\<close>: \<^verbatim>\<open>obj[k1]\<close> is read, then its item is set; a \<^verbatim>\<open>list\<close> refuses a
  \<^verbatim>\<open>str\<close> index and the other values support no item assignment.\<close>

definition setitem2 :: "pyval \<Rightarrow> string \<Rightarrow> string \<Rightarrow> pyval \<Rightarrow> error + pyval" where
  "setitem2 obj k1 k2 v =
     (case obj of
        PDict al \<Rightarrow>
          (case map_of al k1 of
             None \<Rightarrow> Inl (KeyError (PStr k1))
           | Some (PDict al2) \<Rightarrow> Inr (PDict (dict_set k1 (PDict (dict_set k2 v al2)) al))
           | Some other \<Rightarrow> Inl TypeError)
      | other \<Rightarrow> Inl TypeError)"

text \<open>Iteration: a \<^verbatim>\<open>list\<close> yields its elements, a \<^verbatim>\<open>dict\<close> its keys, a \<^verbatim>\<open>str\<close> its
  characters; nothing else is iterable.\<close>

fun py_iter :: "pyval \<Rightarrow> error + pyval list" where
  "py_iter (PList xs) = Inr xs"
| "py_iter (PDict al) = Inr (map (\<lambda>p. PStr (fst p)) al)"
| "py_iter (PStr s) = Inr (map (\<lambda>c. PStr [c]) s)"
| "py_iter _ = Inl TypeError"

text \<open>\<^verbatim>\<open>str.isspace\<close>: at least one character, and all of them white space. The white space
  among the code points below 256 is 9 to 13, 28 to 32, 133 and 160.\<close>

definition is_whitespace :: "char \<Rightarrow> bool" where
  "is_whitespace c =
     (let n = (of_char c :: nat)
      in (9 \<le> n \<and> n \<le> 13) \<or> (28 \<le> n \<and> n \<le> 32) \<or> n = 133 \<or> n = 160)"

definition isspace :: "string \<Rightarrow> bool" where
  "isspace s = (s \<noteq> [] \<and> list_all is_whitespace s)"

definition logger_info :: "string \<Rightarrow> unit io" where
  "logger_info msg = (\<lambda>w. (Inr (), w\<lparr>logged := logged w @ [msg]\<rparr>))"

definition sys_exit :: "string \<Rightarrow> 'a io" where
  "sys_exit msg = raise (SystemExit msg)"

section \<open>Operating system calls\<close>

text \<open>\<^verbatim>\<open>open(p, 'r')\<close> and reading to the end.\<close>

definition os_open_read :: "env \<Rightarrow> path \<Rightarrow> string io" where
  "os_open_read env p =
     (\<lambda>w. case os_fault env (Open_read p) of
            Some e \<Rightarrow> (Inl e, w)
          | None \<Rightarrow>
              (case fs w p of
                 None \<Rightarrow> (Inl FileNotFoundError, w)
               | Some f \<Rightarrow> (Inr (content f), w)))"

text \<open>\<^verbatim>\<open>open(p, 'w')\<close>: an existing file is truncated at once, a missing one is created.\<close>

definition os_open_write :: "env \<Rightarrow> path \<Rightarrow> unit io" where
  "os_open_write env p =
     (\<lambda>w. case os_fault env (Open_write p) of
            Some e \<Rightarrow> (Inl e, w)
          | None \<Rightarrow>
              (case fs w p of
                 None \<Rightarrow>
                   (Inr (), commit ((fs w)(p \<mapsto> \<lparr>content = [], mode = create_mode env,
                                                 uid = euid env, gid = egid env\<rparr>)) w)
               | Some f \<Rightarrow> (Inr (), commit ((fs w)(p \<mapsto> f\<lparr>content := []\<rparr>)) w)))"

text \<open>Writing \<open>s\<close> to the open file \<open>p\<close>; a failing write leaves the first \<open>short_write\<close>
  characters behind.\<close>

definition os_write :: "env \<Rightarrow> path \<Rightarrow> string \<Rightarrow> unit io" where
  "os_write env p s =
     (\<lambda>w. case fs w p of
            None \<Rightarrow> (Inl FileNotFoundError, w)
          | Some f \<Rightarrow>
              (case os_fault env (Write p) of
                 Some e \<Rightarrow>
                   (Inl e, commit ((fs w)(p \<mapsto> f\<lparr>content := content f @ take (short_write env) s\<rparr>)) w)
               | None \<Rightarrow> (Inr (), commit ((fs w)(p \<mapsto> f\<lparr>content := content f @ s\<rparr>)) w)))"

definition os_chmod :: "env \<Rightarrow> path \<Rightarrow> nat \<Rightarrow> unit io" where
  "os_chmod env p m =
     (\<lambda>w. case os_fault env (Chmod p) of
            Some e \<Rightarrow> (Inl e, w)
          | None \<Rightarrow>
              (case fs w p of
                 None \<Rightarrow> (Inl FileNotFoundError, w)
               | Some f \<Rightarrow> (Inr (), commit ((fs w)(p \<mapsto> f\<lparr>mode := m\<rparr>)) w)))"

definition os_chown :: "env \<Rightarrow> path \<Rightarrow> nat \<Rightarrow> nat \<Rightarrow> unit io" where
  "os_chown env p u g =
     (\<lambda>w. case os_fault env (Chown p) of
            Some e \<Rightarrow> (Inl e, w)
          | None \<Rightarrow>
              (case fs w p of
                 None \<Rightarrow> (Inl FileNotFoundError, w)
               | Some f \<Rightarrow> (Inr (), commit ((fs w)(p \<mapsto> f\<lparr>uid := u, gid := g\<rparr>)) w)))"

section \<open>The script\<close>

text \<open>\<^verbatim>\<open>configure_yaml\<close> registers the presenter that \<^verbatim>\<open>yaml.dump\<close> uses from then on.\<close>

definition configure_yaml :: "unit io" where
  "configure_yaml = (\<lambda>w. (Inr (), w\<lparr>str_presenter := True\<rparr>))"

text \<open>\<open>domain_main d\<close> is \<^verbatim>\<open>d['domain']['main']\<close>. \<open>search_domain\<close> is the generator handed
  to \<^verbatim>\<open>next(..., None)\<close>: the first \<open>d\<close> with \<^verbatim>\<open>d['domain']['main'] == domain_name\<close>, or
  \<^verbatim>\<open>None\<close>; a record on the way that cannot be subscripted raises.\<close>

definition domain_main :: "pyval \<Rightarrow> error + pyval" where
  "domain_main d = and_then (getitem d ''domain'') (\<lambda>dom. getitem dom ''main'')"

fun search_domain :: "pyval list \<Rightarrow> string \<Rightarrow> error + pyval" where
  "search_domain [] domain_name = Inr PNone"
| "search_domain (d # ds) domain_name =
     (case domain_main d of
        Inl e \<Rightarrow> Inl e
      | Inr m \<Rightarrow> if m = PStr domain_name then Inr d else search_domain ds domain_name)"

definition first_certificate :: "pyval \<Rightarrow> error + pyval" where
  "first_certificate acme_config =
     and_then (getitem acme_config ''letsencrypt'') (\<lambda>le.
     and_then (getitem le ''Certificates'') (\<lambda>certs. getitem0 certs))"

text \<open>\<^verbatim>\<open>base64.b64decode(obj[k]).decode('utf-8')\<close>: only a \<^verbatim>\<open>str\<close> reaches the decoder.\<close>

definition decode_field :: "env \<Rightarrow> pyval \<Rightarrow> string \<Rightarrow> error + string" where
  "decode_field env obj k =
     and_then (getitem obj k) (\<lambda>v.
       case v of
         PStr s \<Rightarrow> and_then (b64decode env s) (utf8_decode env)
       | other \<Rightarrow> Inl TypeError)"

definition read_traefik :: "env \<Rightarrow> path \<Rightarrow> string \<Rightarrow> (string \<times> string) io" where
  "read_traefik env traefik_path domain_name =
     bind (logger_info (''Reading Traefik configuration: '' @ traefik_path)) (\<lambda>_.
     bind (os_open_read env traefik_path) (\<lambda>text.
     bind (lift (json_load env text)) (\<lambda>acme_config.
     bind (if domain_name = [] \<or> isspace domain_name then
             bind (lift (first_certificate acme_config)) (\<lambda>certificate_obj.
             bind (lift (first_certificate acme_config)) (\<lambda>first.
               if \<not> truthy first then sys_exit ''Could not find any certificate in acme.json''
               else return certificate_obj))
           else
             bind (lift (and_then (getitem acme_config ''letsencrypt'') (\<lambda>le.
                         and_then (getitem le ''Certificates'') py_iter))) (\<lambda>ds.
             bind (lift (search_domain ds domain_name)) (\<lambda>certificate_obj.
               if \<not> truthy certificate_obj then
                 sys_exit (''Could not find any certificate for domain '' @ domain_name)
               else return certificate_obj))) (\<lambda>certificate_obj.
     bind (lift (decode_field env certificate_obj ''certificate'')) (\<lambda>cert.
     bind (lift (decode_field env certificate_obj ''key'')) (\<lambda>private_key.
       return (cert, private_key)))))))"


text \<open>\<^verbatim>\<open>s.split('\n')\<close> and \<^verbatim>\<open>'\n'.join(xs)\<close>.\<close>

fun split_nl :: "string \<Rightarrow> string list" where
  "split_nl [] = [[]]"
| "split_nl (c # cs) =
     (if c = CHR 0x0A then [] # split_nl cs
      else (case split_nl cs of [] \<Rightarrow> [[c]] | l # ls \<Rightarrow> (c # l) # ls))"

fun join_nl :: "string list \<Rightarrow> string" where
  "join_nl [] = []"
| "join_nl [x] = x"
| "join_nl (x # y # ys) = x @ CHR 0x0A # join_nl (y # ys)"

text \<open>\<^verbatim>\<open>'\n'.join(s.split('\n')[1:n + 1])\<close>; only a \<^verbatim>\<open>str\<close> has \<^verbatim>\<open>split\<close>.\<close>

definition get_first_lines :: "pyval \<Rightarrow> nat \<Rightarrow> error + string" where
  "get_first_lines s n =
     (case s of
        PStr t \<Rightarrow> Inr (join_nl (take n (drop 1 (split_nl t))))
      | other \<Rightarrow> Inl AttributeError)"

text \<open>
  \<^verbatim>\<open>has_changed(old, new, item)\<close>. \<open>new\<close> is the decoded text \<^verbatim>\<open>read_traefik\<close> returned, a
  \<^verbatim>\<open>str\<close>, so \<^verbatim>\<open>old != new\<close> holds unless \<open>old\<close> is that very \<^verbatim>\<open>str\<close>. The function returns
  \<^verbatim>\<open>True\<close> on a difference and falls off its end, returning \<^verbatim>\<open>None\<close>, otherwise.
\<close>

definition has_changed :: "pyval \<Rightarrow> string \<Rightarrow> string \<Rightarrow> pyval io" where
  "has_changed old new item =
     bind (logger_info (''Checking '' @ item)) (\<lambda>_.
       if old \<noteq> PStr new then
         bind (logger_info (item @ '' has changed'')) (\<lambda>_.
         bind (lift (get_first_lines old 1)) (\<lambda>old_line.
         bind (logger_info (''Old: '' @ old_line @ ''...'')) (\<lambda>_.
         bind (lift (get_first_lines (PStr new) 1)) (\<lambda>new_line.
         bind (logger_info (''New: '' @ new_line @ ''...'')) (\<lambda>_.
           return (PBool True))))))
       else
         bind (logger_info (item @ '' has not changed'')) (\<lambda>_. return PNone))"

subsection \<open>Paths\<close>

text \<open>\<^verbatim>\<open>s.rfind(c)\<close>: the index of the last \<open>c\<close>, or \<open>-1\<close>.\<close>

definition rfind :: "char \<Rightarrow> string \<Rightarrow> int" where
  "rfind c s =
     (if c \<in> set s then int (length s) - 1 - int (length (takeWhile (\<lambda>x. x \<noteq> c) (rev s)))
      else - 1)"

text \<open>\<^verbatim>\<open>posixpath.split\<close>: cut after the last slash; the head loses its trailing slashes
  unless it consists of slashes only.\<close>

definition os_path_split :: "path \<Rightarrow> path \<times> path" where
  "os_path_split p =
     (let i = nat (rfind CHR ''/'' p + 1);
          head = take i p;
          tail = drop i p
      in (if head \<noteq> [] \<and> head \<noteq> replicate (length head) CHR ''/''
          then rev (dropWhile (\<lambda>c. c = CHR ''/'') (rev head)) else head,
          tail))"

text \<open>\<^verbatim>\<open>posixpath.splitext\<close>: cut at the last dot of the last component, unless only dots
  precede it there.\<close>

definition os_path_splitext :: "path \<Rightarrow> path \<times> path" where
  "os_path_splitext p =
     (let sepIndex = rfind CHR ''/'' p;
          dotIndex = rfind CHR ''.'' p
      in if dotIndex > sepIndex \<and>
            list_ex (\<lambda>c. c \<noteq> CHR ''.'')
              (take (nat dotIndex - nat (sepIndex + 1)) (drop (nat (sepIndex + 1)) p))
         then (take (nat dotIndex) p, drop (nat dotIndex) p)
         else (p, []))"

text \<open>\<^verbatim>\<open>posixpath.join(a, b)\<close>.\<close>

definition os_path_join :: "path \<Rightarrow> path \<Rightarrow> path" where
  "os_path_join a b =
     (if b \<noteq> [] \<and> hd b = CHR ''/'' then b
      else if a = [] \<or> last a = CHR ''/'' then a @ b
      else a @ CHR ''/'' # b)"

definition backup_path :: "path \<Rightarrow> path" where
  "backup_path adguardhome_path =
     (let (dirname, filename) = os_path_split adguardhome_path;
          (name, ext) = os_path_splitext filename
      in os_path_join dirname (name @ ''-backup'' @ ext))"

subsection \<open>Backup, permissions, write\<close>

text \<open>
  \<^verbatim>\<open>shutil.copy2(src, dst)\<close>: \<^verbatim>\<open>copyfile\<close> refuses to copy a file onto itself, opens the
  source, opens (creating or truncating) the destination and copies the data; \<^verbatim>\<open>copystat\<close>
  then gives the destination the source's permission bits. Time stamps and extended
  attributes are not part of an \<open>inode\<close> here.
\<close>

definition shutil_copy2 :: "env \<Rightarrow> path \<Rightarrow> path \<Rightarrow> unit io" where
  "shutil_copy2 env src dst =
     (if src = dst then raise SameFileError
      else
        bind (os_open_read env src) (\<lambda>data.
        bind (os_open_write env dst) (\<lambda>_.
        bind (os_write env dst data) (\<lambda>_.
        (\<lambda>w. case fs w src of
               None \<Rightarrow> (Inl FileNotFoundError, w)
             | Some f \<Rightarrow> os_chmod env dst (mode f) w)))))"

definition create_backup :: "env \<Rightarrow> path \<Rightarrow> unit io" where
  "create_backup env adguardhome_path =
     bind (logger_info (''Backing up AdGuardHome configuration: '' @ adguardhome_path)) (\<lambda>_.
     bind (shutil_copy2 env adguardhome_path (backup_path adguardhome_path)) (\<lambda>_.
       logger_info (''AdGuardHome configuration backed up to : '' @ backup_path adguardhome_path)))"

text \<open>\<^verbatim>\<open>0o644\<close> is 420.\<close>

definition fix_permissions :: "env \<Rightarrow> path \<Rightarrow> unit io" where
  "fix_permissions env adguardhome_path =
     bind (logger_info ''Fixing AdGuardHome permissions'') (\<lambda>_.
     bind (os_chmod env adguardhome_path 420) (\<lambda>_.
       os_chown env adguardhome_path 0 0))"

text \<open>\<^verbatim>\<open>yaml.dump(data, f)\<close> on the file that \<^verbatim>\<open>open(p, 'w')\<close> has just opened: a value
  the serializer refuses raises before anything is written.\<close>

definition yaml_dump_to :: "env \<Rightarrow> pyval \<Rightarrow> path \<Rightarrow> unit io" where
  "yaml_dump_to env data p =
     (\<lambda>w. case yaml_dump env (str_presenter w) data of
            Inl e \<Rightarrow> (Inl e, w)
          | Inr s \<Rightarrow> os_write env p s w)"

definition write_adguardhome :: "env \<Rightarrow> path \<Rightarrow> string \<Rightarrow> string \<Rightarrow> unit io" where
  "write_adguardhome env adguardhome_path cert key =
     bind (logger_info (''Reading AdGuardHome configuration: '' @ adguardhome_path)) (\<lambda>_.
     bind (os_open_read env adguardhome_path) (\<lambda>text.
     bind (lift (yaml_load env text)) (\<lambda>adguardhome_config.
     bind (lift (and_then (getitem adguardhome_config ''tls'')
                   (\<lambda>tls. getitem tls ''certificate_chain''))) (\<lambda>old_cert.
     bind (lift (and_then (getitem adguardhome_config ''tls'')
                   (\<lambda>tls. getitem tls ''private_key''))) (\<lambda>old_key.
     bind (has_changed old_cert cert ''Certificate chain'') (\<lambda>cert_changed.
     bind (if truthy cert_changed then
             bind (lift (setitem2 adguardhome_config ''tls'' ''certificate_chain'' (PStr cert)))
               (\<lambda>c. return (c, True))
           else return (adguardhome_config, False)) (\<lambda>(config1, dirty1).
     bind (has_changed old_key key ''Private key'') (\<lambda>key_changed.
     bind (if truthy key_changed then
             bind (lift (setitem2 config1 ''tls'' ''private_key'' (PStr key)))
               (\<lambda>c. return (c, True))
           else return (config1, dirty1)) (\<lambda>(config2, is_dirty).
       if is_dirty then
         bind (logger_info ''Changes detected'') (\<lambda>_.
         bind (create_backup env adguardhome_path) (\<lambda>_.
         bind (logger_info (''Writing AdGuardHome configuration: '' @ adguardhome_path)) (\<lambda>_.
         bind (os_open_write env adguardhome_path) (\<lambda>_.
         bind (yaml_dump_to env config2 adguardhome_path) (\<lambda>_.
           fix_permissions env adguardhome_path)))))
       else logger_info ''No changes detected'')))))))))"

definition run :: "env \<Rightarrow> path \<Rightarrow> path \<Rightarrow> string \<Rightarrow> unit io" where
  "run env traefik_path adguardhome_path domain_name =
     bind (logger_info ''Initializing...'') (\<lambda>_.
     bind configure_yaml (\<lambda>_.
     bind (read_traefik env traefik_path domain_name) (\<lambda>(cert, key).
     bind (write_adguardhome env adguardhome_path cert key) (\<lambda>_.
       logger_info ''Done''))))"


section \<open>A concrete installation\<close>

text \<open>
  The theorems below hold for every environment. To run the model, \<open>example_env\<close>
  gives the libraries the values they have on the documents of one small installation
  (and an error on every other argument, which nothing below relies on): an
  \<^verbatim>\<open>acme.json\<close> with certificates for \<^verbatim>\<open>a.example\<close> and \<^verbatim>\<open>b.example\<close>, whose fields are the
  base64 of \<^verbatim>\<open>CERTA\<close>, \<^verbatim>\<open>KEYA\<close>, \<^verbatim>\<open>CERTB\<close> and \<^verbatim>\<open>KEYB\<close>, and an \<^verbatim>\<open>AdGuardHome.yaml\<close> that holds
  \<^verbatim>\<open>OLD\<close> and \<^verbatim>\<open>OLDKEY\<close>.
\<close>

definition text_lines :: "string list \<Rightarrow> string" where
  "text_lines ls = concat (map (\<lambda>l. l @ [CHR 0x0A]) ls)"

definition acme_text :: string where
  \<open>acme_text = ''{"letsencrypt": {"Certificates": [{"domain": {"main": "a.example"}, "certificate": "Q0VSVEE=", "key": "S0VZQQ=="}, {"domain": {"main": "b.example"}, "certificate": "Q0VSVEI=", "key": "S0VZQg=="}]}}''\<close>

definition record_a :: pyval where
  "record_a = PDict [(''domain'', PDict [(''main'', PStr ''a.example'')]),
                     (''certificate'', PStr ''Q0VSVEE=''), (''key'', PStr ''S0VZQQ=='')]"

definition record_b :: pyval where
  "record_b = PDict [(''domain'', PDict [(''main'', PStr ''b.example'')]),
                     (''certificate'', PStr ''Q0VSVEI=''), (''key'', PStr ''S0VZQg=='')]"

definition acme_tree :: pyval where
  "acme_tree = PDict [(''letsencrypt'', PDict [(''Certificates'', PList [record_a, record_b])])]"

definition empty_acme_text :: string where
  \<open>empty_acme_text = ''{"letsencrypt": {"Certificates": []}}''\<close>

definition empty_acme_tree :: pyval where
  "empty_acme_tree = PDict [(''letsencrypt'', PDict [(''Certificates'', PList [])])]"

definition old_yaml :: string where
  "old_yaml = text_lines [''dns:'', ''  port: 53'', ''tls:'',
                          ''  certificate_chain: OLD'', ''  private_key: OLDKEY'']"

definition old_tree :: pyval where
  "old_tree = PDict [(''dns'', PDict [(''port'', PInt 53)]),
                     (''tls'', PDict [(''certificate_chain'', PStr ''OLD''),
                                      (''private_key'', PStr ''OLDKEY'')])]"

definition new_yaml :: string where
  "new_yaml = text_lines [''dns:'', ''  port: 53'', ''tls:'',
                          ''  certificate_chain: CERTA'', ''  private_key: KEYA'']"

definition new_tree :: pyval where
  "new_tree = PDict [(''dns'', PDict [(''port'', PInt 53)]),
                     (''tls'', PDict [(''certificate_chain'', PStr ''CERTA''),
                                      (''private_key'', PStr ''KEYA'')])]"

definition example_env :: env where
  "example_env =
     \<lparr>json_load = (\<lambda>s. if s = acme_text then Inr acme_tree
                       else if s = empty_acme_text then Inr empty_acme_tree
                       else Inl JSONDecodeError),
      yaml_load = (\<lambda>s. if s = old_yaml then Inr old_tree
                       else if s = new_yaml then Inr new_tree
                       else Inl YAMLError),
      yaml_dump = (\<lambda>presenter v. if v = new_tree then Inr new_yaml
                                 else if v = old_tree then Inr old_yaml
                                 else Inl YAMLError),
      b64decode = (\<lambda>s. if s = ''Q0VSVEE='' then Inr ''CERTA''
                       else if s = ''S0VZQQ=='' then Inr ''KEYA''
                       else if s = ''Q0VSVEI='' then Inr ''CERTB''
                       else if s = ''S0VZQg=='' then Inr ''KEYB''
                       else Inl Base64Error),
      utf8_decode = (\<lambda>b. if list_all (\<lambda>c. (of_char c :: nat) < 128) b then Inr b
                         else Inl UnicodeDecodeError),
      os_fault = (\<lambda>c. None),
      short_write = 0,
      create_mode = 420,
      euid = 0,
      egid = 0\<rparr>"

definition example_fs :: filesystem where
  "example_fs =
     [''/acme.json'' \<mapsto> \<lparr>content = acme_text, mode = 384, uid = 0, gid = 0\<rparr>,
      ''/AdGuardHome.yaml'' \<mapsto> \<lparr>content = old_yaml, mode = 384, uid = 1000, gid = 1000\<rparr>]"

text \<open>The same installation before Traefik has obtained any certificate.\<close>

definition empty_store_fs :: filesystem where
  "empty_store_fs =
     example_fs(''/acme.json'' \<mapsto> \<lparr>content = empty_acme_text, mode = 384, uid = 0, gid = 0\<rparr>)"

text \<open>The states of the file system in the run of the example without a selector: the
  backup is created, filled and given the mode of the target; the target is truncated,
  filled, and given its mode and its owner.\<close>

definition example_moments :: "filesystem list" where
  "example_moments =
    [example_fs,
     example_fs(''/AdGuardHome-backup.yaml'' \<mapsto> \<lparr>content = [], mode = 420, uid = 0, gid = 0\<rparr>),
     example_fs(''/AdGuardHome-backup.yaml'' \<mapsto> \<lparr>content = old_yaml, mode = 420, uid = 0, gid = 0\<rparr>),
     example_fs(''/AdGuardHome-backup.yaml'' \<mapsto> \<lparr>content = old_yaml, mode = 384, uid = 0, gid = 0\<rparr>),
     example_fs(''/AdGuardHome-backup.yaml'' \<mapsto> \<lparr>content = old_yaml, mode = 384, uid = 0, gid = 0\<rparr>,
                ''/AdGuardHome.yaml'' \<mapsto> \<lparr>content = [], mode = 384, uid = 1000, gid = 1000\<rparr>),
     example_fs(''/AdGuardHome-backup.yaml'' \<mapsto> \<lparr>content = old_yaml, mode = 384, uid = 0, gid = 0\<rparr>,
                ''/AdGuardHome.yaml'' \<mapsto> \<lparr>content = new_yaml, mode = 384, uid = 1000, gid = 1000\<rparr>),
     example_fs(''/AdGuardHome-backup.yaml'' \<mapsto> \<lparr>content = old_yaml, mode = 384, uid = 0, gid = 0\<rparr>,
                ''/AdGuardHome.yaml'' \<mapsto> \<lparr>content = new_yaml, mode = 420, uid = 1000, gid = 1000\<rparr>),
     example_fs(''/AdGuardHome-backup.yaml'' \<mapsto> \<lparr>content = old_yaml, mode = 384, uid = 0, gid = 0\<rparr>,
                ''/AdGuardHome.yaml'' \<mapsto> \<lparr>content = new_yaml, mode = 420, uid = 0, gid = 0\<rparr>)]"


section \<open>Vocabulary of the proofs\<close>

text \<open>
  \<open>log_only m\<close>: the computation \<open>m\<close> changes nothing of the world but the log.
  \<open>compare_config\<close> and \<open>backup_and_write\<close> are the two halves of \<open>write_adguardhome\<close>, lines
  53 to 65 and lines 68 to 72 of the script, named so that the proofs can speak of them;
  \<open>write_adguardhome_split\<close> below proves that \<open>write_adguardhome\<close> is their sequence followed
  by \<open>fix_permissions\<close>. \<open>backed_up fs0 p f\<close>: in the file system \<open>f\<close>, the backup file of
  \<open>p\<close> exists and holds the content that \<open>p\<close> had in \<open>fs0\<close>.
\<close>

definition log_only :: "'a io \<Rightarrow> bool" where
  "log_only m \<longleftrightarrow> (\<forall>w. \<exists>l. snd (m w) = w\<lparr>logged := l\<rparr>)"

definition compare_config :: "env \<Rightarrow> path \<Rightarrow> string \<Rightarrow> string \<Rightarrow> (pyval \<times> bool) io" where
  "compare_config env adguardhome_path cert key =
     bind (logger_info (''Reading AdGuardHome configuration: '' @ adguardhome_path)) (\<lambda>_.
     bind (os_open_read env adguardhome_path) (\<lambda>text.
     bind (lift (yaml_load env text)) (\<lambda>adguardhome_config.
     bind (lift (and_then (getitem adguardhome_config ''tls'')
                   (\<lambda>tls. getitem tls ''certificate_chain''))) (\<lambda>old_cert.
     bind (lift (and_then (getitem adguardhome_config ''tls'')
                   (\<lambda>tls. getitem tls ''private_key''))) (\<lambda>old_key.
     bind (has_changed old_cert cert ''Certificate chain'') (\<lambda>cert_changed.
     bind (if truthy cert_changed then
             bind (lift (setitem2 adguardhome_config ''tls'' ''certificate_chain'' (PStr cert)))
               (\<lambda>c. return (c, True))
           else return (adguardhome_config, False)) (\<lambda>(config1, dirty1).
     bind (has_changed old_key key ''Private key'') (\<lambda>key_changed.
       if truthy key_changed then
             bind (lift (setitem2 config1 ''tls'' ''private_key'' (PStr key)))
               (\<lambda>c. return (c, True))
           else return (config1, dirty1)))))))))"

definition backup_and_write :: "env \<Rightarrow> path \<Rightarrow> pyval \<Rightarrow> unit io" where
  "backup_and_write env adguardhome_path config =
     bind (logger_info ''Changes detected'') (\<lambda>_.
     bind (create_backup env adguardhome_path) (\<lambda>_.
     bind (logger_info (''Writing AdGuardHome configuration: '' @ adguardhome_path)) (\<lambda>_.
     bind (os_open_write env adguardhome_path) (\<lambda>_.
       yaml_dump_to env config adguardhome_path))))"


definition backed_up :: "filesystem \<Rightarrow> path \<Rightarrow> filesystem \<Rightarrow> bool" where
  "backed_up fs0 p f \<longleftrightarrow>
     (case (fs0 p, f (backup_path p)) of
        (Some t, Some b) \<Rightarrow> content b = content t
      | _ \<Rightarrow> False)"






section \<open>Paths: the backup is another file\<close>

lemmas io_defs = bind_def return_def raise_def lift_def logger_info_def sys_exit_def

lemma split_at_rfind:
  "take (nat (rfind c p + 1)) p = rev (dropWhile (\<lambda>x. x \<noteq> c) (rev p)) \<and>
   drop (nat (rfind c p + 1)) p = rev (takeWhile (\<lambda>x. x \<noteq> c) (rev p))"
proof -
  let ?tw = "takeWhile (\<lambda>x. x \<noteq> c) (rev p)"
  let ?dw = "dropWhile (\<lambda>x. x \<noteq> c) (rev p)"
  have p: "p = rev ?dw @ rev ?tw"
    by (metis rev_append rev_rev_ident takeWhile_dropWhile_id)
  have len: "length ?tw + length ?dw = length p"
    by (metis length_append length_rev takeWhile_dropWhile_id)
  show ?thesis
  proof (cases "c \<in> set p")
    case True
    then have i: "nat (rfind c p + 1) = length (rev ?dw)"
      using len by (simp add: rfind_def)
    show ?thesis
      unfolding i using p by (metis append_eq_conv_conj)
  next
    case False
    then have tw: "?tw = rev p" and dw: "?dw = []"
      by (auto simp: takeWhile_eq_all_conv)
    show ?thesis unfolding tw dw using False by (simp add: rfind_def)
  qed
qed

lemma last_component:
  assumes "c \<notin> set b" and "h = [] \<or> last h = c"
  shows "rev (takeWhile (\<lambda>x. x \<noteq> c) (rev (h @ b))) = b"
proof -
  have "takeWhile (\<lambda>x. x \<noteq> c) (rev h) = []"
    using assms(2) by (cases h rule: rev_cases) auto
  moreover have "takeWhile (\<lambda>x. x \<noteq> c) (rev b @ rev h) = rev b @ takeWhile (\<lambda>x. x \<noteq> c) (rev h)"
    by (rule takeWhile_append2) (use assms(1) in auto)
  ultimately show ?thesis
    by simp
qed

lemma splitext_append: "os_path_splitext f = (name, ext) \<Longrightarrow> name @ ext = f"
  by (auto simp: os_path_splitext_def Let_def split: if_splits)

text \<open>The last component of the backup path is seven characters longer than the last
  component of the path it was computed from, so the two paths differ.\<close>

lemma backup_path_neq: "backup_path p \<noteq> p"
proof
  assume eq: "backup_path p = p"
  let ?c = "CHR ''/''"
  let ?i = "nat (rfind ?c p + 1)"
  let ?tail = "drop ?i p"
  let ?head0 = "take ?i p"
  obtain d where d: "os_path_split p = (d, ?tail)"
    by (simp add: os_path_split_def Let_def)
  obtain name ext where ne: "os_path_splitext ?tail = (name, ext)"
    by (cases "os_path_splitext ?tail")
  let ?b = "name @ ''-backup'' @ ext"
  have tail_noslash: "?c \<notin> set ?tail"
    using split_at_rfind[of ?c p] by (auto dest: set_takeWhileD)
  have ne_tail: "name @ ext = ?tail" using ne by (rule splitext_append)
  have "set name \<union> set ext = set ?tail"
    using arg_cong[OF ne_tail, of set] by simp
  then have b_noslash: "?c \<notin> set ?b"
    using tail_noslash by auto
  have "length name + length ext = length ?tail"
    using arg_cong[OF ne_tail, of length] by simp
  then have b_len: "length ?b = length ?tail + 7"
    by simp
  have bp: "backup_path p = os_path_join d ?b"
    by (simp add: backup_path_def d ne)
  have "hd ?b \<noteq> ?c" using b_noslash by (cases name) auto
  then obtain h where h: "os_path_join d ?b = h @ ?b" "h = [] \<or> last h = ?c"
    by (cases "d = [] \<or> last d = ?c") (auto simp: os_path_join_def)
  have 1: "rev (takeWhile (\<lambda>x. x \<noteq> ?c) (rev (backup_path p))) = ?b"
    unfolding bp h(1) using b_noslash h(2) by (rule last_component)
  have "?head0 = [] \<or> last ?head0 = ?c"
    using split_at_rfind[of ?c p] hd_dropWhile[of "\<lambda>x. x \<noteq> ?c" "rev p"]
    by (auto simp: last_rev)
  with tail_noslash
  have 2: "rev (takeWhile (\<lambda>x. x \<noteq> ?c) (rev (?head0 @ ?tail))) = ?tail"
    by (rule last_component)
  from 1 2 eq have "?b = ?tail" by simp
  then have "length ?b = length ?tail" by (rule arg_cong)
  with b_len show False by linarith
qed

section \<open>The certificate extractor\<close>

lemma search_domain_miss:
  "\<forall>x\<in>set rs. \<exists>m. domain_main x = Inr m \<and> m \<noteq> PStr dn \<Longrightarrow> search_domain rs dn = Inr PNone"
  by (induction rs) auto

lemma search_domain_hit:
  "\<forall>x\<in>set pre. \<exists>m. domain_main x = Inr m \<and> m \<noteq> PStr dn \<Longrightarrow> domain_main d = Inr (PStr dn) \<Longrightarrow>
   search_domain (pre @ d # post) dn = Inr d"
  by (induction pre) auto

lemma getitem_Inr_truthy: "getitem d k = Inr v \<Longrightarrow> truthy d"
  by (cases d) (auto split: option.splits)

lemma domain_main_truthy: "domain_main d = Inr m \<Longrightarrow> truthy d"
  by (auto simp: domain_main_def and_then_def split: sum.splits dest: getitem_Inr_truthy)

lemma decode_field_truthy: "decode_field env d k = Inr t \<Longrightarrow> truthy d"
  by (auto simp: decode_field_def and_then_def split: sum.splits dest: getitem_Inr_truthy)

lemma example_env_sel [simp]:
  "json_load example_env acme_text = Inr acme_tree"
  "os_fault example_env c = None"
  by (simp_all add: example_env_def)

lemma example_decode:
  "decode_field example_env record_a ''certificate'' = Inr ''CERTA''"
  "decode_field example_env record_a ''key'' = Inr ''KEYA''"
  "decode_field example_env record_b ''certificate'' = Inr ''CERTB''"
  "decode_field example_env record_b ''key'' = Inr ''KEYB''"
  by (simp_all add: decode_field_def and_then_def record_a_def record_b_def example_env_def)

lemma example_domains:
  "domain_main record_a = Inr (PStr ''a.example'')"
  "domain_main record_b = Inr (PStr ''b.example'')"
  by (simp_all add: domain_main_def and_then_def record_a_def record_b_def)

lemma example_store:
  "fs (init_world example_fs) ''/acme.json'' =
     Some \<lparr>content = acme_text, mode = 384, uid = 0, gid = 0\<rparr>"
  "getitem acme_tree ''letsencrypt'' = Inr (PDict [(''Certificates'', PList [record_a, record_b])])"
  "getitem (PDict [(''Certificates'', PList [record_a, record_b])]) ''Certificates'' =
     Inr (PList [record_a, record_b])"
  by (simp_all add: init_world_def example_fs_def acme_tree_def)

text \<open>
  C2. The claim: with an absent or blank selector and a store of zero records, extraction
  fails with the diagnosed \<^verbatim>\<open>sys.exit('Could not find any certificate in acme.json')\<close>. The
  script subscripts the list with \<^verbatim>\<open>[0]\<close> before it tests the record, so on the empty
  store the run ends in an \<^verbatim>\<open>IndexError\<close> and the diagnosis is never reached.
\<close>

theorem empty_store_raises_IndexError:
  "fst (read_traefik example_env ''/acme.json'' [] (init_world empty_store_fs)) = Inl IndexError \<and>
   fst (read_traefik example_env ''/acme.json'' [] (init_world empty_store_fs)) \<noteq>
     Inl (SystemExit ''Could not find any certificate in acme.json'')"
  by (simp add: read_traefik_def io_defs os_open_read_def and_then_def first_certificate_def
      init_world_def empty_store_fs_def example_env_def empty_acme_tree_def
      acme_text_def empty_acme_text_def)

text \<open>
  C3. With a selector that is present and not blank, extraction returns the decoded
  credential of the first record whose \<^verbatim>\<open>domain.main\<close> is exactly the selector, wherever it
  stands in the store (records \<open>pre\<close> before it, \<open>post\<close> after it), and exits with
  \<^verbatim>\<open>Could not find any certificate for domain\<close> followed by the selector when no record has
  that domain. Equality is equality of strings: no case folding, no wildcard, no suffix.
\<close>

theorem selector_picks_first_match:
  assumes "os_fault env (Open_read tp) = None" and "fs w tp = Some f"
    and "json_load env (content f) = Inr acme" and "getitem acme ''letsencrypt'' = Inr le"
    and "getitem le ''Certificates'' = Inr (PList rs)"
    and "dn \<noteq> []" and "\<not> isspace dn"
  shows "(\<forall>pre d post cert key.
            rs = pre @ d # post \<and>
            (\<forall>x\<in>set pre. \<exists>m. domain_main x = Inr m \<and> m \<noteq> PStr dn) \<and>
            domain_main d = Inr (PStr dn) \<and>
            decode_field env d ''certificate'' = Inr cert \<and>
            decode_field env d ''key'' = Inr key \<longrightarrow>
            fst (read_traefik env tp dn w) = Inr (cert, key)) \<and>
         ((\<forall>x\<in>set rs. \<exists>m. domain_main x = Inr m \<and> m \<noteq> PStr dn) \<longrightarrow>
            fst (read_traefik env tp dn w) =
              Inl (SystemExit (''Could not find any certificate for domain '' @ dn)))"
proof (intro conjI allI impI)
  fix pre d post cert key
  assume h: "rs = pre @ d # post \<and>
            (\<forall>x\<in>set pre. \<exists>m. domain_main x = Inr m \<and> m \<noteq> PStr dn) \<and>
            domain_main d = Inr (PStr dn) \<and>
            decode_field env d ''certificate'' = Inr cert \<and>
            decode_field env d ''key'' = Inr key"
  then have s: "search_domain rs dn = Inr d" using search_domain_hit by blast
  have t: "truthy d" using h domain_main_truthy by blast
  show "fst (read_traefik env tp dn w) = Inr (cert, key)"
    using assms s t h
    by (simp add: read_traefik_def io_defs os_open_read_def and_then_def)
next
  assume "\<forall>x\<in>set rs. \<exists>m. domain_main x = Inr m \<and> m \<noteq> PStr dn"
  then have s: "search_domain rs dn = Inr PNone" by (rule search_domain_miss)
  show "fst (read_traefik env tp dn w) =
              Inl (SystemExit (''Could not find any certificate for domain '' @ dn))"
    using assms s
    by (simp add: read_traefik_def io_defs os_open_read_def and_then_def)
qed

text \<open>The second record is found behind the first; \<^verbatim>\<open>B.example\<close> and \<^verbatim>\<open>example\<close> match
  nothing.\<close>

theorem selector_picks_first_match_witness:
  "fst (read_traefik example_env ''/acme.json'' ''b.example'' (init_world example_fs)) =
     Inr (''CERTB'', ''KEYB'') \<and>
   fst (read_traefik example_env ''/acme.json'' ''B.example'' (init_world example_fs)) =
     Inl (SystemExit ''Could not find any certificate for domain B.example'') \<and>
   fst (read_traefik example_env ''/acme.json'' ''example'' (init_world example_fs)) =
     Inl (SystemExit ''Could not find any certificate for domain example'')"
proof -
  have sel: "\<not> isspace ''b.example''" "\<not> isspace ''B.example''" "\<not> isspace ''example''"
    by (simp_all add: isspace_def is_whitespace_def)
  note io = example_env_sel(2) example_store(1) example_env_sel(1)[simplified] example_store(2,3)
  have hit: "[record_a, record_b] = [record_a] @ record_b # [] \<and>
      (\<forall>x\<in>set [record_a]. \<exists>m. domain_main x = Inr m \<and> m \<noteq> PStr ''b.example'') \<and>
      domain_main record_b = Inr (PStr ''b.example'') \<and>
      decode_field example_env record_b ''certificate'' = Inr ''CERTB'' \<and>
      decode_field example_env record_b ''key'' = Inr ''KEYB''"
    by (simp add: example_domains example_decode)
  have miss1: "\<forall>x\<in>set [record_a, record_b]. \<exists>m. domain_main x = Inr m \<and> m \<noteq> PStr ''B.example''"
    and miss2: "\<forall>x\<in>set [record_a, record_b]. \<exists>m. domain_main x = Inr m \<and> m \<noteq> PStr ''example''"
    by (simp_all add: example_domains)
  have io1: "json_load example_env
      (content \<lparr>content = acme_text, mode = 384, uid = 0, gid = 0\<rparr>) = Inr acme_tree"
    by simp
  from selector_picks_first_match[OF example_env_sel(2) example_store(1) io1 example_store(2,3) _ sel(1)]
    hit
  have 1: "fst (read_traefik example_env ''/acme.json'' ''b.example'' (init_world example_fs)) =
     Inr (''CERTB'', ''KEYB'')"
    by blast
  from selector_picks_first_match[OF example_env_sel(2) example_store(1) io1 example_store(2,3) _ sel(2)]
    miss1
  have 2: "fst (read_traefik example_env ''/acme.json'' ''B.example'' (init_world example_fs)) =
     Inl (SystemExit (''Could not find any certificate for domain '' @ ''B.example''))"
    by blast
  from selector_picks_first_match[OF example_env_sel(2) example_store(1) io1 example_store(2,3) _ sel(3)]
    miss2
  have 3: "fst (read_traefik example_env ''/acme.json'' ''example'' (init_world example_fs)) =
     Inl (SystemExit (''Could not find any certificate for domain '' @ ''example''))"
    by blast
  from 1 2 3 show ?thesis by simp
qed

text \<open>
  C4. With no selector (empty or blank) and a store whose first record is \<open>d\<close>, extraction
  returns the credential of \<open>d\<close>: its \<^verbatim>\<open>certificate\<close> and its \<^verbatim>\<open>key\<close>, each passed through
  \<^verbatim>\<open>base64.b64decode\<close> and then decoded as UTF-8.
\<close>

theorem blank_selector_picks_first_record:
  assumes "os_fault env (Open_read tp) = None" and "fs w tp = Some f"
    and "json_load env (content f) = Inr acme" and "getitem acme ''letsencrypt'' = Inr le"
    and "getitem le ''Certificates'' = Inr (PList (d # rest))"
    and "dn = [] \<or> isspace dn"
    and "getitem d ''certificate'' = Inr (PStr c64)" and "b64decode env c64 = Inr cb"
    and "utf8_decode env cb = Inr cert"
    and "getitem d ''key'' = Inr (PStr k64)" and "b64decode env k64 = Inr kb"
    and "utf8_decode env kb = Inr key"
  shows "fst (read_traefik env tp dn w) = Inr (cert, key)"
proof -
  have t: "truthy d" using assms(7) by (rule getitem_Inr_truthy)
  show ?thesis
    using assms t
    by (auto simp add: read_traefik_def io_defs os_open_read_def and_then_def
        first_certificate_def decode_field_def)
qed

theorem blank_selector_picks_first_record_witness:
  "fst (read_traefik example_env ''/acme.json'' [] (init_world example_fs)) =
     Inr (''CERTA'', ''KEYA'')"
proof -
  have io1: "json_load example_env
      (content \<lparr>content = acme_text, mode = 384, uid = 0, gid = 0\<rparr>) = Inr acme_tree"
    by simp
  have st: "getitem (PDict [(''Certificates'', PList [record_a, record_b])]) ''Certificates'' =
     Inr (PList (record_a # [record_b]))"
    by simp
  show ?thesis
  proof (rule blank_selector_picks_first_record[OF example_env_sel(2) example_store(1) io1
          example_store(2) st])
    show "[] = [] \<or> isspace []" by simp
    show "getitem record_a ''certificate'' = Inr (PStr ''Q0VSVEE='')"
      by (simp add: record_a_def)
    show "b64decode example_env ''Q0VSVEE='' = Inr ''CERTA''"
      by (simp add: example_env_def)
    show "utf8_decode example_env ''CERTA'' = Inr ''CERTA''"
      by (simp add: example_env_def)
    show "getitem record_a ''key'' = Inr (PStr ''S0VZQQ=='')"
      by (simp add: record_a_def)
    show "b64decode example_env ''S0VZQQ=='' = Inr ''KEYA''"
      by (simp add: example_env_def)
    show "utf8_decode example_env ''KEYA'' = Inr ''KEYA''"
      by (simp add: example_env_def)
  qed
qed

text \<open>
  C5. For strings \<open>old\<close> and \<open>new\<close>, \<^verbatim>\<open>has_changed\<close> returns \<^verbatim>\<open>True\<close> exactly when they
  differ as strings, and otherwise returns \<^verbatim>\<open>None\<close>, which is not true; a value and the
  same value followed by one newline are reported as changed.
\<close>

theorem has_changed_exact:
  "(fst (has_changed (PStr old) new item w) = Inr (PBool True) \<longleftrightarrow> old \<noteq> new) \<and>
   (fst (has_changed (PStr old) new item w) = Inr PNone \<longleftrightarrow> old = new) \<and>
   \<not> truthy PNone \<and>
   fst (has_changed (PStr s) (s @ [CHR 0x0A]) item w) = Inr (PBool True)"
  by (simp add: has_changed_def io_defs get_first_lines_def)

theorem has_changed_exact_witness:
  "fst (has_changed (PStr ''CERTA'') ''CERTA'' ''Certificate chain'' (init_world example_fs)) =
     Inr PNone \<and>
   fst (has_changed (PStr ''CERTA'') ''certa'' ''Certificate chain'' (init_world example_fs)) =
     Inr (PBool True) \<and>
   fst (has_changed (PStr ''CERTA'') (''CERTA'' @ [CHR 0x0A]) ''Certificate chain''
          (init_world example_fs)) = Inr (PBool True)"
  using has_changed_exact[of "''CERTA''" "''CERTA''" "''Certificate chain''" "init_world example_fs"]
    has_changed_exact[of "''CERTA''" "''certa''" "''Certificate chain''" "init_world example_fs"
      "''CERTA''"]
  by simp

section \<open>The run, step by step\<close>

lemma bind_assoc: "bind (bind m f) g = bind m (\<lambda>x. bind (f x) g)"
  by (auto simp: bind_def fun_eq_iff split: prod.splits sum.splits)

lemma bind_return: "bind (return x) f = f x"
  by (simp add: bind_def return_def)

lemma bind_if: "bind (if c then a else b) f = (if c then bind a f else bind b f)"
  by simp

lemma bindE:
  assumes "bind m f w = (r, w')"
  obtains (fail) e where "m w = (Inl e, w')" "r = Inl e"
        | (ok) x w1 where "m w = (Inr x, w1)" "f x w1 = (r, w')"
  using assms by (auto simp: bind_def split: prod.splits sum.splits)

lemma write_adguardhome_split:
  "write_adguardhome env p cert key =
     bind (compare_config env p cert key) (\<lambda>(config2, is_dirty).
       if is_dirty then bind (backup_and_write env p config2) (\<lambda>_. fix_permissions env p)
       else logger_info ''No changes detected'')"
  unfolding write_adguardhome_def compare_config_def backup_and_write_def
  by (simp add: bind_assoc bind_return bind_if cong: if_cong)

lemma same_but_log: "\<exists>l. w = w\<lparr>logged := l\<rparr>"
  by (rule exI[of _ "logged w"]) simp

lemma log_only_bind: "log_only m \<Longrightarrow> (\<And>x. log_only (f x)) \<Longrightarrow> log_only (bind m f)"
  unfolding log_only_def bind_def
proof (intro allI)
  fix w
  assume m: "\<forall>w. \<exists>l. snd (m w) = w\<lparr>logged := l\<rparr>" and f: "\<And>x. \<forall>w. \<exists>l. snd (f x w) = w\<lparr>logged := l\<rparr>"
  obtain r w1 where mw: "m w = (r, w1)" by (cases "m w")
  obtain l where l: "w1 = w\<lparr>logged := l\<rparr>" using m[rule_format, of w] mw by auto
  show "\<exists>l. snd (case m w of (Inl e, w') \<Rightarrow> (Inl e, w') | (Inr x, w') \<Rightarrow> f x w') = w\<lparr>logged := l\<rparr>"
  proof (cases r)
    case (Inl e)
    then show ?thesis using mw l by auto
  next
    case (Inr x)
    obtain l' where "snd (f x w1) = w1\<lparr>logged := l'\<rparr>" using f[of x, rule_format, of w1] by auto
    then show ?thesis using mw l Inr by auto
  qed
qed

lemma log_only_return: "log_only (return x)"
  and log_only_raise: "log_only (raise e)"
  and log_only_sys_exit: "log_only (sys_exit msg)"
  by (simp_all add: log_only_def io_defs same_but_log)

lemma log_only_lift: "log_only (lift r)"
  by (cases r) (simp_all add: lift_def log_only_return log_only_raise)

lemma log_only_logger_info: "log_only (logger_info msg)"
  unfolding log_only_def logger_info_def by auto

lemma log_only_open_read: "log_only (os_open_read env p)"
  by (simp add: log_only_def os_open_read_def same_but_log split: option.splits)

lemma log_only_if: "log_only a \<Longrightarrow> log_only b \<Longrightarrow> log_only (if c then a else b)"
  by simp

lemma log_only_case_prod: "(\<And>a b. log_only (f a b)) \<Longrightarrow> log_only (case_prod f x)"
  by (cases x) simp

lemmas log_only_intros = log_only_bind log_only_return log_only_raise log_only_sys_exit
  log_only_lift log_only_logger_info log_only_open_read log_only_if log_only_case_prod

lemma log_only_has_changed: "log_only (has_changed old new item)"
  unfolding has_changed_def by (intro log_only_intros)

lemma log_only_read_traefik: "log_only (read_traefik env tp dn)"
  unfolding read_traefik_def by (intro log_only_intros)

lemma log_only_compare_config: "log_only (compare_config env p cert key)"
  unfolding compare_config_def by (intro log_only_intros log_only_has_changed)

lemma log_onlyD: "log_only m \<Longrightarrow> m w = (r, w') \<Longrightarrow> \<exists>l. w' = w\<lparr>logged := l\<rparr>"
  unfolding log_only_def by (metis snd_conv)

lemma has_changed_truthy:
  "has_changed old new item w = (Inr x, w') \<Longrightarrow> truthy x \<longleftrightarrow> old \<noteq> PStr new"
  by (auto simp: has_changed_def io_defs get_first_lines_def split: if_splits sum.splits pyval.splits)

lemma compare_config_result:
  assumes "compare_config env p cert key w = (Inr (config2, is_dirty), w1)"
  shows "\<exists>t cfg oc ok c1.
           os_fault env (Open_read p) = None \<and> fs w p = Some t \<and> yaml_load env (content t) = Inr cfg \<and>
           and_then (getitem cfg ''tls'') (\<lambda>tls. getitem tls ''certificate_chain'') = Inr oc \<and>
           and_then (getitem cfg ''tls'') (\<lambda>tls. getitem tls ''private_key'') = Inr ok \<and>
           (if oc \<noteq> PStr cert then setitem2 cfg ''tls'' ''certificate_chain'' (PStr cert) = Inr c1
            else c1 = cfg) \<and>
           (if ok \<noteq> PStr key then setitem2 c1 ''tls'' ''private_key'' (PStr key) = Inr config2
            else config2 = c1) \<and>
           is_dirty = (oc \<noteq> PStr cert \<or> ok \<noteq> PStr key)"
proof -
  from assms[unfolded compare_config_def]
  show ?thesis
    apply (elim bindE)
    apply (auto simp: io_defs os_open_read_def split: if_splits sum.splits option.splits prod.splits dest!: has_changed_truthy)
    done
qed

lemmas os_defs = os_open_read_def os_open_write_def os_write_def os_chmod_def os_chown_def

lemma moments_commit [simp]:
  "moments (commit f w) = moments w @ [f]" "fs (commit f w) = f"
  "str_presenter (commit f w) = str_presenter w"
  by (simp_all add: moments_def commit_def)

lemma moments_logged [simp]: "moments (w\<lparr>logged := l\<rparr>) = moments w"
  by (simp add: moments_def)

lemma fs_last: "moments w' = moments w @ ms \<Longrightarrow> fs w' = last (fs w # ms)"
proof -
  assume a: "moments w' = moments w @ ms"
  have "fs w' = last (moments w')" by (simp add: moments_def)
  also have "\<dots> = last (moments w @ ms)" using a by simp
  also have "\<dots> = last (fs w # ms)" by (simp add: moments_def)
  finally show ?thesis .
qed

lemma copy2_moments:
  assumes "shutil_copy2 env src dst w = (r, w1)"
  shows "str_presenter w1 = str_presenter w \<and>
         (\<exists>ms. moments w1 = moments w @ ms \<and> (\<forall>f\<in>set ms. \<forall>q. q \<noteq> dst \<longrightarrow> f q = fs w q)) \<and>
         (r = Inr () \<longrightarrow> (\<exists>t b. fs w src = Some t \<and> fs w1 dst = Some b \<and> content b = content t))"
  using assms
  by (auto simp: io_defs os_defs shutil_copy2_def split: option.splits sum.splits if_splits)

lemma create_backup_moments:
  assumes "create_backup env p w = (r, w1)"
  shows "str_presenter w1 = str_presenter w \<and>
         (\<exists>ms. moments w1 = moments w @ ms \<and> (\<forall>f\<in>set ms. f p = fs w p)) \<and>
         fs w1 p = fs w p \<and>
         (r = Inr () \<longrightarrow> backed_up (fs w) p (fs w1))"
proof -
  from assms obtain r' w0 l0 where c: "shutil_copy2 env p (backup_path p) (w\<lparr>logged := l0\<rparr>) = (r', w0)"
    and w1: "\<exists>l. w1 = w0\<lparr>logged := l\<rparr>" and r: "r = Inr () \<longrightarrow> r' = Inr ()"
    by (auto simp: create_backup_def io_defs same_but_log split: prod.splits sum.splits)
  from copy2_moments[OF c] obtain ms where
    ms: "moments w0 = moments w @ ms" "\<forall>f\<in>set ms. \<forall>q. q \<noteq> backup_path p \<longrightarrow> f q = fs w q"
    and sp: "str_presenter w0 = str_presenter w"
    and ok: "r' = Inr () \<longrightarrow> (\<exists>t b. fs w p = Some t \<and> fs w0 (backup_path p) = Some b \<and> content b = content t)"
    by auto
  have keep: "\<forall>f\<in>set ms. f p = fs w p"
    using ms(2) backup_path_neq[of p] by metis
  have "fs w0 = last (fs w # ms)" using ms(1) by (rule fs_last)
  then have last: "fs w0 p = fs w p" using keep by (cases ms rule: rev_cases) auto
  from w1 obtain l where l: "w1 = w0\<lparr>logged := l\<rparr>" ..
  show ?thesis
    using l ms(1) keep last sp ok r by (auto simp: backed_up_def)
qed

lemma write_moments:
  assumes "bind (os_open_write env p) (\<lambda>_. yaml_dump_to env cfg p) w = (r, w2)" and "fs w p = Some t"
  shows "str_presenter w2 = str_presenter w \<and>
         (\<exists>ms. moments w2 = moments w @ ms \<and>
            (\<forall>f\<in>set ms. (\<forall>q. q \<noteq> p \<longrightarrow> f q = fs w q) \<and>
               (\<exists>j. f p = Some j \<and> mode j = mode t \<and> uid j = uid t \<and> gid j = gid t \<and>
                  (content j = [] \<or>
                   (\<exists>s. yaml_dump env (str_presenter w) cfg = Inr s \<and> prefix (content j) s))))) \<and>
         (r = Inr () \<longrightarrow>
            (\<exists>s. yaml_dump env (str_presenter w) cfg = Inr s \<and> fs w2 = (fs w)(p \<mapsto> t\<lparr>content := s\<rparr>)))"
  using assms
  by (auto simp: io_defs os_defs yaml_dump_to_def take_is_prefix split: option.splits sum.splits if_splits)

lemma fix_permissions_moments:
  assumes "fix_permissions env p w = (r, w')" and "fs w p = Some i"
  shows "str_presenter w' = str_presenter w \<and>
         (\<exists>ms. moments w' = moments w @ ms \<and>
            (\<forall>f\<in>set ms. (\<forall>q. q \<noteq> p \<longrightarrow> f q = fs w q) \<and>
               (\<exists>j. f p = Some j \<and> content j = content i))) \<and>
         (r = Inr () \<longrightarrow> fs w' = (fs w)(p \<mapsto> i\<lparr>mode := 420, uid := 0, gid := 0\<rparr>))"
  using assms
  by (auto simp: io_defs os_defs fix_permissions_def split: option.splits sum.splits if_splits)

lemma logger_infoE:
  assumes "logger_info msg w = (r, w1)"
  obtains "r = Inr ()" "w1 = w\<lparr>logged := logged w @ [msg]\<rparr>"
  using assms by (auto simp: logger_info_def)

lemma backup_and_write_moments:
  assumes run: "backup_and_write env p cfg w = (r, w3)" and t: "fs w p = Some t"
  shows "str_presenter w3 = str_presenter w \<and>
         (\<exists>pre post. moments w3 = moments w @ pre @ post \<and>
            (\<forall>f\<in>set pre. f p = fs w p) \<and>
            (post \<noteq> [] \<longrightarrow> backed_up (fs w) p (last (fs w # pre))) \<and>
            (\<forall>f\<in>set post. backed_up (fs w) p f \<and>
               (\<exists>j. f p = Some j \<and> mode j = mode t \<and> uid j = uid t \<and> gid j = gid t \<and>
                  (content j = [] \<or>
                   (\<exists>s. yaml_dump env (str_presenter w) cfg = Inr s \<and> prefix (content j) s))))) \<and>
         (r = Inr () \<longrightarrow>
            backed_up (fs w) p (fs w3) \<and>
            (\<exists>s. yaml_dump env (str_presenter w) cfg = Inr s \<and> fs w3 p = Some (t\<lparr>content := s\<rparr>)))"
proof (rule bindE[OF run[unfolded backup_and_write_def]])
  fix e assume "logger_info ''Changes detected'' w = (Inl e, w3)"
  then show ?thesis by (simp add: logger_info_def)
next
  fix x wa
  assume "logger_info ''Changes detected'' w = (Inr x, wa)"
  then have wa: "wa = w\<lparr>logged := logged w @ [''Changes detected'']\<rparr>"
    by (auto simp: logger_info_def)
  assume rest: "bind (create_backup env p) (\<lambda>_.
         bind (logger_info (''Writing AdGuardHome configuration: '' @ p)) (\<lambda>_.
         bind (os_open_write env p) (\<lambda>_. yaml_dump_to env cfg p))) wa = (r, w3)"
  have fa: "fs wa = fs w" "moments wa = moments w" "str_presenter wa = str_presenter w"
    by (simp_all add: wa)
  show ?thesis
  proof (rule bindE[OF rest])
    fix e assume cb: "create_backup env p wa = (Inl e, w3)" and r: "r = Inl e"
    from create_backup_moments[OF cb] obtain ms where
      "moments w3 = moments wa @ ms" "\<forall>f\<in>set ms. f p = fs wa p" "str_presenter w3 = str_presenter wa"
      by auto
    then have "moments w3 = moments w @ ms @ []" "\<forall>f\<in>set ms. f p = fs w p"
      and "str_presenter w3 = str_presenter w"
      by (simp_all add: fa)
    then show ?thesis using r by (intro conjI exI[of _ ms] exI[of _ "[]"]) simp_all
  next
    fix x wb
    assume cb: "create_backup env p wa = (Inr x, wb)"
    from create_backup_moments[OF cb] obtain pre where pre:
      "moments wb = moments w @ pre" "\<forall>f\<in>set pre. f p = fs w p" "str_presenter wb = str_presenter w"
      "fs wb p = fs w p" "backed_up (fs w) p (fs wb)"
      by (auto simp: fa)
    have lastpre: "fs wb = last (fs w # pre)" using pre(1) by (rule fs_last)
    assume rest2: "bind (logger_info (''Writing AdGuardHome configuration: '' @ p)) (\<lambda>_.
         bind (os_open_write env p) (\<lambda>_. yaml_dump_to env cfg p)) wb = (r, w3)"
    show ?thesis
    proof (rule bindE[OF rest2])
      fix e assume "logger_info (''Writing AdGuardHome configuration: '' @ p) wb = (Inl e, w3)"
      then show ?thesis by (simp add: logger_info_def)
    next
      fix x wc
      assume "logger_info (''Writing AdGuardHome configuration: '' @ p) wb = (Inr x, wc)"
      then have wc: "wc = wb\<lparr>logged := logged wb @ [''Writing AdGuardHome configuration: '' @ p]\<rparr>"
        by (auto simp: logger_info_def)
      have fc: "fs wc = fs wb" "moments wc = moments wb" "str_presenter wc = str_presenter wb"
        by (simp_all add: wc)
      assume wr: "bind (os_open_write env p) (\<lambda>_. yaml_dump_to env cfg p) wc = (r, w3)"
      have tc: "fs wc p = Some t" using fc pre(4) t by simp
      from write_moments[OF wr tc] obtain post where post:
        "str_presenter w3 = str_presenter w"
        "moments w3 = moments w @ pre @ post"
        "\<forall>f\<in>set post. (\<forall>q. q \<noteq> p \<longrightarrow> f q = fs wb q) \<and>
               (\<exists>j. f p = Some j \<and> mode j = mode t \<and> uid j = uid t \<and> gid j = gid t \<and>
                  (content j = [] \<or>
                   (\<exists>s. yaml_dump env (str_presenter w) cfg = Inr s \<and> prefix (content j) s)))"
        "r = Inr () \<longrightarrow>
            (\<exists>s. yaml_dump env (str_presenter w) cfg = Inr s \<and> fs w3 = (fs wb)(p \<mapsto> t\<lparr>content := s\<rparr>))"
        by (auto simp: fc pre(1,3))
      have bk: "\<And>f. \<forall>q. q \<noteq> p \<longrightarrow> f q = fs wb q \<Longrightarrow> backed_up (fs w) p f"
        using pre(5) backup_path_neq[of p] by (simp add: backed_up_def)
      have 1: "\<forall>f\<in>set post. backed_up (fs w) p f \<and>
               (\<exists>j. f p = Some j \<and> mode j = mode t \<and> uid j = uid t \<and> gid j = gid t \<and>
                  (content j = [] \<or>
                   (\<exists>s. yaml_dump env (str_presenter w) cfg = Inr s \<and> prefix (content j) s)))"
        using post(3) bk by blast
      have 2: "post \<noteq> [] \<longrightarrow> backed_up (fs w) p (last (fs w # pre))"
        using pre(5) lastpre by simp
      have 3: "r = Inr () \<longrightarrow>
            backed_up (fs w) p (fs w3) \<and>
            (\<exists>s. yaml_dump env (str_presenter w) cfg = Inr s \<and> fs w3 p = Some (t\<lparr>content := s\<rparr>))"
        using post(4) bk by fastforce
      show ?thesis
        using post(1,2) pre(2) 1 2 3 by blast
    qed
  qed
qed

lemma backed_up_cong:
  "backed_up f0 p f \<Longrightarrow> g (backup_path p) = f (backup_path p) \<Longrightarrow> backed_up f0 p g"
  by (simp add: backed_up_def)

lemma write_adguardhome_moments:
  assumes run: "write_adguardhome env p cert key w = (r, w')"
  shows "str_presenter w' = str_presenter w \<and>
         (\<exists>cfg pre post. moments w' = moments w @ pre @ post \<and>
            (\<forall>f\<in>set pre. f p = fs w p) \<and>
            (post \<noteq> [] \<longrightarrow> backed_up (fs w) p (last (fs w # pre))) \<and>
            (\<forall>f\<in>set post. backed_up (fs w) p f \<and>
               (\<exists>j. f p = Some j \<and>
                  (content j = [] \<or>
                   (\<exists>s. yaml_dump env (str_presenter w) cfg = Inr s \<and> prefix (content j) s)))) \<and>
            (r = Inr () \<and> post \<noteq> [] \<longrightarrow>
               (\<exists>j s. fs w' p = Some j \<and> yaml_dump env (str_presenter w) cfg = Inr s \<and>
                  content j = s)) \<and>
            (post \<noteq> [] \<longrightarrow> (\<exists>w1. compare_config env p cert key w = (Inr (cfg, True), w1))))"
    (is "?P w'")
proof -
  have quiet: "?P (w\<lparr>logged := l\<rparr>)" for l
    by (intro conjI exI[of _ "[]"] exI[of _ PNone]) simp_all
  show ?thesis
  proof (rule bindE[OF run[unfolded write_adguardhome_split]])
    fix e assume "compare_config env p cert key w = (Inl e, w')"
    from log_onlyD[OF log_only_compare_config this] obtain l where "w' = w\<lparr>logged := l\<rparr>" ..
    then show ?thesis using quiet by simp
  next
    fix x w1
    assume cc: "compare_config env p cert key w = (Inr x, w1)"
    obtain config2 is_dirty where x: "x = (config2, is_dirty)" by (cases x)
    from log_onlyD[OF log_only_compare_config cc] obtain l where w1: "w1 = w\<lparr>logged := l\<rparr>" ..
    from compare_config_result[OF cc[unfolded x]] obtain t where t: "fs w p = Some t" by blast
    have f1: "fs w1 = fs w" "moments w1 = moments w" "str_presenter w1 = str_presenter w"
      by (simp_all add: w1)
    assume "(case x of (config2, is_dirty) \<Rightarrow>
               if is_dirty then bind (backup_and_write env p config2) (\<lambda>_. fix_permissions env p)
               else logger_info ''No changes detected'') w1 = (r, w')"
    then have k: "(if is_dirty then bind (backup_and_write env p config2) (\<lambda>_. fix_permissions env p)
               else logger_info ''No changes detected'') w1 = (r, w')"
      by (simp add: x)
    show ?thesis
    proof (cases is_dirty)
      case False
      with k have "w' = w\<lparr>logged := l @ [''No changes detected'']\<rparr>"
        by (auto simp: logger_info_def w1)
      then show ?thesis using quiet by simp
    next
      case True
      with k have d: "bind (backup_and_write env p config2) (\<lambda>_. fix_permissions env p) w1 = (r, w')"
        by simp
      have t1: "fs w1 p = Some t" using t f1 by simp
      have doc: "post \<noteq> [] \<longrightarrow> (\<exists>w1. compare_config env p cert key w = (Inr (config2, True), w1))"
        for post :: "filesystem list"
        using cc x True by simp
      have weaken: "\<forall>f\<in>set post. backed_up (fs w) p f \<and>
               (\<exists>j. f p = Some j \<and> mode j = mode t \<and> uid j = uid t \<and> gid j = gid t \<and>
                  (content j = [] \<or>
                   (\<exists>s. yaml_dump env (str_presenter w) config2 = Inr s \<and> prefix (content j) s)))
          \<Longrightarrow> \<forall>f\<in>set post. backed_up (fs w) p f \<and>
               (\<exists>j. f p = Some j \<and>
                  (content j = [] \<or>
                   (\<exists>s. yaml_dump env (str_presenter w) config2 = Inr s \<and> prefix (content j) s)))"
        for post
        by (rule ballI, drule (1) bspec, elim conjE exE, intro conjI exI) assumption+
      show ?thesis
      proof (rule bindE[OF d])
        fix e assume bw: "backup_and_write env p config2 w1 = (Inl e, w')" and re: "r = Inl e"
        note B = backup_and_write_moments[OF bw t1, unfolded f1]
        note B1 = B[THEN conjunct1] and B2 = B[THEN conjunct2, THEN conjunct1]
        from B2 obtain pre post where b:
          "moments w' = moments w @ pre @ post"
          "\<forall>f\<in>set pre. f p = fs w p"
          "post \<noteq> [] \<longrightarrow> backed_up (fs w) p (last (fs w # pre))"
          "\<forall>f\<in>set post. backed_up (fs w) p f \<and>
               (\<exists>j. f p = Some j \<and> mode j = mode t \<and> uid j = uid t \<and> gid j = gid t \<and>
                  (content j = [] \<or>
                   (\<exists>s. yaml_dump env (str_presenter w) config2 = Inr s \<and> prefix (content j) s)))"
          by (elim exE conjE)
        have nope: "r = Inr () \<and> post \<noteq> [] \<longrightarrow>
               (\<exists>j s. fs w' p = Some j \<and> yaml_dump env (str_presenter w) config2 = Inr s \<and>
                  content j = s)"
          using re by simp
        show ?thesis
          using B1 b(1,2,3) weaken[OF b(4)] nope doc[of post]
          by (intro conjI exI[of _ config2] exI[of _ pre] exI[of _ post]) assumption+
      next
        fix u w3
        assume bw: "backup_and_write env p config2 w1 = (Inr u, w3)"
          and fp: "fix_permissions env p w3 = (r, w')"
        have bw': "backup_and_write env p config2 w1 = (Inr (), w3)" using bw by simp
        note B = backup_and_write_moments[OF bw' t1, unfolded f1]
        note B1 = B[THEN conjunct1] and B2 = B[THEN conjunct2, THEN conjunct1]
          and B3 = B[THEN conjunct2, THEN conjunct2, rule_format, OF refl]
        from B2 obtain pre post where b:
          "moments w3 = moments w @ pre @ post"
          "\<forall>f\<in>set pre. f p = fs w p"
          "post \<noteq> [] \<longrightarrow> backed_up (fs w) p (last (fs w # pre))"
          "\<forall>f\<in>set post. backed_up (fs w) p f \<and>
               (\<exists>j. f p = Some j \<and> mode j = mode t \<and> uid j = uid t \<and> gid j = gid t \<and>
                  (content j = [] \<or>
                   (\<exists>s. yaml_dump env (str_presenter w) config2 = Inr s \<and> prefix (content j) s)))"
          by (elim exE conjE)
        from B3 obtain s where s:
          "backed_up (fs w) p (fs w3)"
          "yaml_dump env (str_presenter w) config2 = Inr s"
          "fs w3 p = Some (t\<lparr>content := s\<rparr>)"
          by (elim exE conjE)
        note F = fix_permissions_moments[OF fp s(3)]
        note m1 = F[THEN conjunct1]
        from F[THEN conjunct2, THEN conjunct1] obtain ms where m:
          "moments w' = moments w3 @ ms"
          "\<forall>f\<in>set ms. (\<forall>q. q \<noteq> p \<longrightarrow> f q = fs w3 q) \<and>
              (\<exists>j. f p = Some j \<and> content j = content (t\<lparr>content := s\<rparr>))"
          by (elim exE conjE)
        have new: "\<forall>f\<in>set ms. backed_up (fs w) p f \<and>
               (\<exists>j. f p = Some j \<and>
                  (content j = [] \<or>
                   (\<exists>s. yaml_dump env (str_presenter w) config2 = Inr s \<and> prefix (content j) s)))"
        proof
          fix f assume "f \<in> set ms"
          with m(2) have off: "\<forall>q. q \<noteq> p \<longrightarrow> f q = fs w3 q"
            and "\<exists>j. f p = Some j \<and> content j = content (t\<lparr>content := s\<rparr>)"
            by simp_all
          then obtain j where j: "f p = Some j" "content j = s" by auto
          have "f (backup_path p) = fs w3 (backup_path p)"
            using off backup_path_neq[of p] by simp
          with s(1) have "backed_up (fs w) p f" by (rule backed_up_cong)
          moreover have "\<exists>s. yaml_dump env (str_presenter w) config2 = Inr s \<and> prefix (content j) s"
            using s(2) j(2) by simp
          ultimately show "backed_up (fs w) p f \<and>
               (\<exists>j. f p = Some j \<and>
                  (content j = [] \<or>
                   (\<exists>s. yaml_dump env (str_presenter w) config2 = Inr s \<and> prefix (content j) s)))"
            using j(1) by simp
        qed
        have lastpre: "post @ ms \<noteq> [] \<longrightarrow> backed_up (fs w) p (last (fs w # pre))"
        proof (cases "post = []")
          case True
          then have "fs w3 = last (fs w # pre)" using fs_last[of w3 w pre] b(1) by simp
          then show ?thesis using s(1) by simp
        next
          case False
          then show ?thesis using b(3) by simp
        qed
        have all: "\<forall>f\<in>set (post @ ms). backed_up (fs w) p f \<and>
               (\<exists>j. f p = Some j \<and>
                  (content j = [] \<or>
                   (\<exists>s. yaml_dump env (str_presenter w) config2 = Inr s \<and> prefix (content j) s)))"
          using weaken[OF b(4)] new unfolding set_append ball_Un by (rule conjI)
        have mm: "moments w' = moments w @ pre @ (post @ ms)"
          using m(1) b(1) by simp
        have sp: "str_presenter w' = str_presenter w" using m1 B1 by simp
        have fin: "r = Inr () \<and> post @ ms \<noteq> [] \<longrightarrow>
               (\<exists>j s. fs w' p = Some j \<and> yaml_dump env (str_presenter w) config2 = Inr s \<and>
                  content j = s)"
          using F[THEN conjunct2, THEN conjunct2] s(2) by simp
        show ?thesis
          using sp mm b(2) lastpre all fin doc[of "post @ ms"]
          by (intro conjI exI[of _ config2] exI[of _ pre] exI[of _ "post @ ms"]) assumption+
      qed
    qed
  qed
qed

section \<open>The run of the example\<close>

lemmas run_defs = run_def configure_yaml_def read_traefik_def write_adguardhome_def has_changed_def
  create_backup_def shutil_copy2_def fix_permissions_def yaml_dump_to_def io_defs os_defs commit_def
  and_then_def first_certificate_def decode_field_def get_first_lines_def setitem2_def

lemma bp_example: "backup_path ''/AdGuardHome.yaml'' = ''/AdGuardHome-backup.yaml''"
  by (simp add: backup_path_def os_path_split_def os_path_splitext_def os_path_join_def rfind_def)


lemma example_run:
  "fst (run example_env ''/acme.json'' ''/AdGuardHome.yaml'' [] (init_world example_fs)) = Inr () \<and>
   moments (snd (run example_env ''/acme.json'' ''/AdGuardHome.yaml'' [] (init_world example_fs))) =
     example_moments"
  by (simp add: run_defs bp_example init_world_def example_fs_def example_env_def moments_def
      example_moments_def acme_tree_def record_a_def old_tree_def new_tree_def)

section \<open>Every moment of a run\<close>

lemma world_swap: "w\<lparr>logged := l, str_presenter := b\<rparr> = w\<lparr>str_presenter := b, logged := l\<rparr>"
  by (cases w) simp

lemma run_cases:
  assumes "run env tp ap dn w = (r, w')"
  obtains (extract_failed) e l where "r = Inl e" "w' = (w\<lparr>str_presenter := True\<rparr>)\<lparr>logged := l\<rparr>"
  | (extracted) cert key l0 l w2 where
      "read_traefik env tp dn ((w\<lparr>str_presenter := True\<rparr>)\<lparr>logged := l0\<rparr>) =
         (Inr (cert, key), (w\<lparr>str_presenter := True\<rparr>)\<lparr>logged := l\<rparr>)"
      "write_adguardhome env ap cert key ((w\<lparr>str_presenter := True\<rparr>)\<lparr>logged := l\<rparr>) = (r, w2)"
      "\<exists>l'. w' = w2\<lparr>logged := l'\<rparr>"
proof -
  define wi where "wi = w\<lparr>str_presenter := True\<rparr>"
  define l0 where "l0 = logged w @ [''Initializing...'']"
  have start: "run env tp ap dn w =
      bind (read_traefik env tp dn) (\<lambda>(cert, key).
        bind (write_adguardhome env ap cert key) (\<lambda>_. logger_info ''Done'')) (wi\<lparr>logged := l0\<rparr>)"
    by (simp add: run_def bind_def logger_info_def configure_yaml_def wi_def l0_def world_swap)
  obtain r1 w1 where rt: "read_traefik env tp dn (wi\<lparr>logged := l0\<rparr>) = (r1, w1)"
    by (cases "read_traefik env tp dn (wi\<lparr>logged := l0\<rparr>)")
  from log_onlyD[OF log_only_read_traefik rt] obtain l where w1: "w1 = wi\<lparr>logged := l\<rparr>"
    by auto
  show ?thesis
  proof (cases r1)
    case (Inl e)
    with assms rt w1 have "r = Inl e" "w' = wi\<lparr>logged := l\<rparr>"
      by (simp_all add: start bind_def)
    then show ?thesis unfolding wi_def by (rule extract_failed)
  next
    case (Inr ck)
    obtain cert key where ck: "ck = (cert, key)" by (cases ck)
    obtain r2 w2 where wa: "write_adguardhome env ap cert key w1 = (r2, w2)"
      by (cases "write_adguardhome env ap cert key w1")
    from assms rt Inr ck wa have "r = r2 \<and> (\<exists>l'. w' = w2\<lparr>logged := l'\<rparr>)"
      by (cases r2) (auto simp: start bind_def logger_info_def same_but_log)
    then show ?thesis
      using extracted[of l0 cert key l w2] rt wa Inr ck w1 unfolding wi_def by auto
  qed
qed

lemma read_traefik_fst:
  "fst (read_traefik env tp dn w) = fst (read_traefik env tp dn (init_world (fs w)))"
  by (simp add: read_traefik_def io_defs os_open_read_def init_world_def
      split: option.splits sum.splits prod.splits)

lemma compare_config_fst:
  "fst (compare_config env p cert key w) = fst (compare_config env p cert key (init_world (fs w)))"
  by (simp add: compare_config_def has_changed_def io_defs os_open_read_def init_world_def
      split: option.splits sum.splits prod.splits)

lemma run_moments_document:
  assumes "run env tp ap dn (init_world fs0) = (r, w')"
  shows "\<exists>cfg pre post. moments w' = fs0 # pre @ post \<and>
            (\<forall>f\<in>set pre. f ap = fs0 ap) \<and>
            (post \<noteq> [] \<longrightarrow> backed_up fs0 ap (last (fs0 # pre))) \<and>
            (\<forall>f\<in>set post. backed_up fs0 ap f \<and>
               (\<exists>j. f ap = Some j \<and>
                  (content j = [] \<or>
                   (\<exists>s. yaml_dump env True cfg = Inr s \<and> prefix (content j) s)))) \<and>
            (r = Inr () \<and> post \<noteq> [] \<longrightarrow>
               (\<exists>j s. fs w' ap = Some j \<and> yaml_dump env True cfg = Inr s \<and> content j = s)) \<and>
            (post \<noteq> [] \<longrightarrow>
               (\<exists>cert key. fst (read_traefik env tp dn (init_world fs0)) = Inr (cert, key) \<and>
                  fst (compare_config env ap cert key (init_world fs0)) = Inr (cfg, True)))"
  using assms
proof (cases rule: run_cases)
  case (extract_failed e l)
  then have "moments w' = fs0 # [] @ []" by (simp add: moments_def init_world_def)
  then show ?thesis by (intro exI[of _ "[]"] exI[of _ PNone] conjI) simp_all
next
  case (extracted cert key l0 l w2)
  let ?w0 = "((init_world fs0)\<lparr>str_presenter := True\<rparr>)\<lparr>logged := l0\<rparr>"
  let ?w1 = "((init_world fs0)\<lparr>str_presenter := True\<rparr>)\<lparr>logged := l\<rparr>"
  have w1: "fs ?w1 = fs0" "moments ?w1 = [fs0]" "str_presenter ?w1 = True"
    by (simp_all add: moments_def init_world_def)
  have "fs ?w0 = fs0" by (simp add: init_world_def)
  with read_traefik_fst[of env tp dn ?w0] extracted(1)
  have rt: "fst (read_traefik env tp dn (init_world fs0)) = Inr (cert, key)" by simp
  have cc: "(\<exists>w1. compare_config env ap cert key ?w1 = (Inr (cfg, True), w1)) \<Longrightarrow>
            fst (compare_config env ap cert key (init_world fs0)) = Inr (cfg, True)" for cfg
    using compare_config_fst[of env ap cert key ?w1] w1(1) by auto
  from extracted(3) obtain l' where l': "w' = w2\<lparr>logged := l'\<rparr>" ..
  have w': "moments w' = moments w2" "fs w' = fs w2" by (simp_all add: l')
  from write_adguardhome_moments[OF extracted(2), unfolded w1, THEN conjunct2]
  obtain cfg pre post where m2: "moments w2 = [fs0] @ pre @ post"
    and a: "\<forall>f\<in>set pre. f ap = fs0 ap"
      "post \<noteq> [] \<longrightarrow> backed_up fs0 ap (last (fs0 # pre))"
      "\<forall>f\<in>set post. backed_up fs0 ap f \<and>
               (\<exists>j. f ap = Some j \<and>
                  (content j = [] \<or>
                   (\<exists>s. yaml_dump env True cfg = Inr s \<and> prefix (content j) s)))"
    and a2: "r = Inr () \<and> post \<noteq> [] \<longrightarrow>
               (\<exists>j s. fs w2 ap = Some j \<and> yaml_dump env True cfg = Inr s \<and> content j = s)"
    and d: "post \<noteq> [] \<longrightarrow> (\<exists>w1. compare_config env ap cert key ?w1 = (Inr (cfg, True), w1))"
    by (elim exE conjE)
  have m: "moments w' = fs0 # pre @ post" using m2 w' by simp
  have a3: "r = Inr () \<and> post \<noteq> [] \<longrightarrow>
               (\<exists>j s. fs w' ap = Some j \<and> yaml_dump env True cfg = Inr s \<and> content j = s)"
    using a2 unfolding w' .
  from d cc[of cfg] rt
  have "post \<noteq> [] \<longrightarrow>
               (\<exists>cert key. fst (read_traefik env tp dn (init_world fs0)) = Inr (cert, key) \<and>
                  fst (compare_config env ap cert key (init_world fs0)) = Inr (cfg, True))"
    by blast
  with m a a3 show ?thesis
    by (intro exI[of _ cfg] exI[of _ pre] exI[of _ post] conjI) assumption+
qed

lemma run_moments:
  assumes "run env tp ap dn (init_world fs0) = (r, w')"
  shows "\<exists>cfg pre post. moments w' = fs0 # pre @ post \<and>
            (\<forall>f\<in>set pre. f ap = fs0 ap) \<and>
            (post \<noteq> [] \<longrightarrow> backed_up fs0 ap (last (fs0 # pre))) \<and>
            (\<forall>f\<in>set post. backed_up fs0 ap f \<and>
               (\<exists>j. f ap = Some j \<and>
                  (content j = [] \<or>
                   (\<exists>s. yaml_dump env True cfg = Inr s \<and> prefix (content j) s)))) \<and>
            (r = Inr () \<and> post \<noteq> [] \<longrightarrow>
               (\<exists>j s. fs w' ap = Some j \<and> yaml_dump env True cfg = Inr s \<and> content j = s))"
proof -
  from run_moments_document[OF assms] obtain cfg pre post where
    "moments w' = fs0 # pre @ post"
    "\<forall>f\<in>set pre. f ap = fs0 ap"
    "post \<noteq> [] \<longrightarrow> backed_up fs0 ap (last (fs0 # pre))"
    "\<forall>f\<in>set post. backed_up fs0 ap f \<and>
               (\<exists>j. f ap = Some j \<and>
                  (content j = [] \<or>
                   (\<exists>s. yaml_dump env True cfg = Inr s \<and> prefix (content j) s)))"
    "r = Inr () \<and> post \<noteq> [] \<longrightarrow>
               (\<exists>j s. fs w' ap = Some j \<and> yaml_dump env True cfg = Inr s \<and> content j = s)"
    by (elim exE conjE)
  then show ?thesis
    by (intro exI[of _ cfg] exI[of _ pre] exI[of _ post] conjI) assumption+
qed







lemma example_run_eq:
  "run example_env ''/acme.json'' ''/AdGuardHome.yaml'' [] (init_world example_fs) =
     (Inr (), snd (run example_env ''/acme.json'' ''/AdGuardHome.yaml'' [] (init_world example_fs)))"
  using example_run by (simp add: prod_eq_iff)

lemma example_moments_nth:
  "(example_moments ! 3) ''/AdGuardHome.yaml'' = example_fs ''/AdGuardHome.yaml''"
  "(example_moments ! 3) ''/AdGuardHome-backup.yaml'' =
     Some \<lparr>content = old_yaml, mode = 384, uid = 0, gid = 0\<rparr>"
  "(example_moments ! 4) ''/AdGuardHome.yaml'' =
     Some \<lparr>content = [], mode = 384, uid = 1000, gid = 1000\<rparr>"
  "example_fs ''/AdGuardHome.yaml'' = Some \<lparr>content = old_yaml, mode = 384, uid = 1000, gid = 1000\<rparr>"
  "length example_moments = 8"
  by (simp_all add: example_moments_def example_fs_def)

lemma example_yaml_nonempty [simp]:
  "old_yaml \<noteq> []" "new_yaml \<noteq> []" "[] \<noteq> old_yaml" "[] \<noteq> new_yaml"
  by (simp_all add: old_yaml_def new_yaml_def text_lines_def)

text \<open>
  C1. At every moment of a run at which the target differs from what it was before the run
  (in content, mode or owner), the backup file exists and holds the content the target had
  before the run; and at an earlier moment the backup was already complete while the target
  was still untouched. Moments are the states of the file system, in order, the first being
  the state before the run.
\<close>

theorem backup_precedes_write:
  assumes "run env tp ap dn (init_world fs0) = (r, w')"
    and "n < length (moments w')" and "(moments w' ! n) ap \<noteq> fs0 ap"
  shows "backed_up fs0 ap (moments w' ! n) \<and>
         (\<exists>k<n. (moments w' ! k) ap = fs0 ap \<and> backed_up fs0 ap (moments w' ! k))"
proof -
  from run_moments[OF assms(1)] obtain pre post where m: "moments w' = (fs0 # pre) @ post"
    and pre: "\<forall>f\<in>set pre. f ap = fs0 ap"
    and lastpre: "post \<noteq> [] \<longrightarrow> backed_up fs0 ap (last (fs0 # pre))"
    and post: "\<forall>f\<in>set post. backed_up fs0 ap f"
    by auto
  have untouched: "\<forall>f\<in>set (fs0 # pre). f ap = fs0 ap" using pre by simp
  have n: "length (fs0 # pre) \<le> n"
  proof (rule ccontr)
    assume "\<not> length (fs0 # pre) \<le> n"
    then have lt: "n < length (fs0 # pre)" by simp
    then have "moments w' ! n = (fs0 # pre) ! n" by (simp only: m nth_append if_True)
    moreover have "(fs0 # pre) ! n \<in> set (fs0 # pre)" using lt by (rule nth_mem)
    ultimately show False using untouched assms(3) by metis
  qed
  then have at_n: "moments w' ! n = post ! (n - length (fs0 # pre))"
    by (simp only: m nth_append) simp
  have inpost: "n - length (fs0 # pre) < length post" using assms(2) n by (simp add: m)
  then have 1: "backed_up fs0 ap (moments w' ! n)" using post at_n nth_mem by metis
  have "post \<noteq> []" using inpost by auto
  with lastpre have bl: "backed_up fs0 ap (last (fs0 # pre))" by simp
  have k: "moments w' ! length pre = last (fs0 # pre)"
    by (simp only: m nth_append) (simp add: last_conv_nth)
  have "last (fs0 # pre) \<in> set (fs0 # pre)" by (rule last_in_set) simp
  then have ul: "last (fs0 # pre) ap = fs0 ap" using untouched by blast
  have "length pre < n" using n by simp
  then have "\<exists>k<n. (moments w' ! k) ap = fs0 ap \<and> backed_up fs0 ap (moments w' ! k)"
    using k bl ul by (intro exI[of _ "length pre"]) simp
  with 1 show ?thesis ..
qed

theorem backup_precedes_write_witness:
  "(moments (snd (run example_env ''/acme.json'' ''/AdGuardHome.yaml'' [] (init_world example_fs))) ! 4)
       ''/AdGuardHome.yaml'' \<noteq> example_fs ''/AdGuardHome.yaml'' \<and>
   backed_up example_fs ''/AdGuardHome.yaml''
     (moments (snd (run example_env ''/acme.json'' ''/AdGuardHome.yaml'' [] (init_world example_fs))) ! 4)"
proof -
  let ?w = "snd (run example_env ''/acme.json'' ''/AdGuardHome.yaml'' [] (init_world example_fs))"
  have ms: "moments ?w = example_moments" using example_run by simp
  have n: "4 < length (moments ?w)" by (simp add: ms example_moments_nth)
  have ne: "(moments ?w ! 4) ''/AdGuardHome.yaml'' \<noteq> example_fs ''/AdGuardHome.yaml''"
    by (simp add: ms example_moments_nth)
  from backup_precedes_write[OF example_run_eq n ne] ne show ?thesis by simp
qed




section \<open>Runs that write\<close>

lemma run_start:
  "run env tp ap dn w =
     bind (read_traefik env tp dn) (\<lambda>(cert, key).
       bind (write_adguardhome env ap cert key) (\<lambda>_. logger_info ''Done''))
       (w\<lparr>str_presenter := True, logged := logged w @ [''Initializing...'']\<rparr>)"
  by (simp add: run_def bind_def logger_info_def configure_yaml_def world_swap)

lemma run_success_cases:
  assumes "run env tp ap dn w = (Inr (), w')"
  obtains (unchanged) cert key w1 config2 w2 where
      "read_traefik env tp dn (w\<lparr>str_presenter := True, logged := logged w @ [''Initializing...'']\<rparr>) =
         (Inr (cert, key), w1)"
      "compare_config env ap cert key w1 = (Inr (config2, False), w2)"
      "w' = w2\<lparr>logged := logged w2 @ [''No changes detected'', ''Done'']\<rparr>"
  | (written) cert key w1 config2 w2 w3 w4 where
      "read_traefik env tp dn (w\<lparr>str_presenter := True, logged := logged w @ [''Initializing...'']\<rparr>) =
         (Inr (cert, key), w1)"
      "compare_config env ap cert key w1 = (Inr (config2, True), w2)"
      "backup_and_write env ap config2 w2 = (Inr (), w3)"
      "fix_permissions env ap w3 = (Inr (), w4)"
      "w' = w4\<lparr>logged := logged w4 @ [''Done'']\<rparr>"
proof (rule bindE[OF assms[unfolded run_start]])
  fix e assume "Inr () = Inl e"
  then show thesis by simp
next
  fix x w1
  assume rt: "read_traefik env tp dn
      (w\<lparr>str_presenter := True, logged := logged w @ [''Initializing...'']\<rparr>) = (Inr x, w1)"
  obtain cert key where x: "x = (cert, key)" by (cases x)
  assume "(case x of (cert, key) \<Rightarrow>
            bind (write_adguardhome env ap cert key) (\<lambda>_. logger_info ''Done'')) w1 = (Inr (), w')"
  then have k: "bind (write_adguardhome env ap cert key) (\<lambda>_. logger_info ''Done'') w1 = (Inr (), w')"
    by (simp add: x)
  show thesis
  proof (rule bindE[OF k])
    fix e assume "Inr () = Inl e"
    then show thesis by simp
  next
    fix u wa
    assume wa: "write_adguardhome env ap cert key w1 = (Inr u, wa)"
      and "logger_info ''Done'' wa = (Inr (), w')"
    then have w': "w' = wa\<lparr>logged := logged wa @ [''Done'']\<rparr>" by (auto simp: logger_info_def)
    show thesis
    proof (rule bindE[OF wa[unfolded write_adguardhome_split]])
      fix e assume "Inr u = Inl e"
      then show thesis by simp
    next
      fix y w2
      assume cc: "compare_config env ap cert key w1 = (Inr y, w2)"
      obtain config2 is_dirty where y: "y = (config2, is_dirty)" by (cases y)
      assume "(case y of (config2, is_dirty) \<Rightarrow>
                 if is_dirty then bind (backup_and_write env ap config2) (\<lambda>_. fix_permissions env ap)
                 else logger_info ''No changes detected'') w2 = (Inr u, wa)"
      then have d: "(if is_dirty then bind (backup_and_write env ap config2) (\<lambda>_. fix_permissions env ap)
                 else logger_info ''No changes detected'') w2 = (Inr (), wa)"
        by (simp add: y)
      show thesis
      proof (cases is_dirty)
        case False
        with d have "wa = w2\<lparr>logged := logged w2 @ [''No changes detected'']\<rparr>"
          by (auto simp: logger_info_def)
        then have "w' = w2\<lparr>logged := logged w2 @ [''No changes detected'', ''Done'']\<rparr>"
          by (simp add: w')
        moreover have "read_traefik env tp dn
            (w\<lparr>str_presenter := True, logged := logged w @ [''Initializing...'']\<rparr>) =
            (Inr (cert, key), w1)"
          using rt x by simp
        moreover have "compare_config env ap cert key w1 = (Inr (config2, False), w2)"
          using cc y False by simp
        ultimately show thesis using unchanged by blast
      next
        case True
        with d have b: "bind (backup_and_write env ap config2) (\<lambda>_. fix_permissions env ap) w2 = (Inr (), wa)"
          by simp
        show thesis
        proof (rule bindE[OF b])
          fix e assume "Inr () = Inl e"
          then show thesis by simp
        next
          fix v w3
          assume "backup_and_write env ap config2 w2 = (Inr v, w3)"
            and fp: "fix_permissions env ap w3 = (Inr (), wa)"
          then have "backup_and_write env ap config2 w2 = (Inr (), w3)" by simp
          moreover have "read_traefik env tp dn
              (w\<lparr>str_presenter := True, logged := logged w @ [''Initializing...'']\<rparr>) =
              (Inr (cert, key), w1)"
            using rt x by simp
          moreover have "compare_config env ap cert key w1 = (Inr (config2, True), w2)"
            using cc y True by simp
          ultimately show thesis using written fp w' by blast
        qed
      qed
    qed
  qed
qed

text \<open>Composition, the other way round: what \<open>run\<close> returns once the four parts are known.\<close>

lemma run_compose:
  assumes "read_traefik env tp dn (w\<lparr>str_presenter := True, logged := logged w @ [''Initializing...'']\<rparr>) =
         (Inr (cert, key), w1)"
    and "compare_config env ap cert key w1 = (Inr (config2, True), w2)"
    and "backup_and_write env ap config2 w2 = (Inr (), w3)"
    and "fix_permissions env ap w3 = (Inl e, w4)"
  shows "run env tp ap dn w = (Inl e, w4)"
  by (simp add: run_start write_adguardhome_split bind_def assms)


text \<open>An environment that differs only in the answers to \<^verbatim>\<open>chmod\<close> and \<^verbatim>\<open>chown\<close> on the
  target runs everything before \<open>fix_permissions\<close> in the same way.\<close>

lemma other_faults:
  assumes "\<And>c. c \<noteq> Chmod ap \<Longrightarrow> c \<noteq> Chown ap \<Longrightarrow> g c = os_fault env c"
  shows "read_traefik (env\<lparr>os_fault := g\<rparr>) tp dn = read_traefik env tp dn"
    and "compare_config (env\<lparr>os_fault := g\<rparr>) ap cert key = compare_config env ap cert key"
    and "backup_and_write (env\<lparr>os_fault := g\<rparr>) ap cfg = backup_and_write env ap cfg"
proof -
  have r: "os_open_read (env\<lparr>os_fault := g\<rparr>) p = os_open_read env p" for p
    by (simp add: os_open_read_def assms fun_eq_iff split: option.splits)
  have ow: "os_open_write (env\<lparr>os_fault := g\<rparr>) p = os_open_write env p" for p
    by (simp add: os_open_write_def assms fun_eq_iff split: option.splits)
  have wr: "os_write (env\<lparr>os_fault := g\<rparr>) p s = os_write env p s" for p s
    by (simp add: os_write_def assms fun_eq_iff split: option.splits)
  have cm: "os_chmod (env\<lparr>os_fault := g\<rparr>) (backup_path ap) m = os_chmod env (backup_path ap) m" for m
    by (simp add: os_chmod_def assms backup_path_neq fun_eq_iff split: option.splits)
  have df: "decode_field (env\<lparr>os_fault := g\<rparr>) d k = decode_field env d k" for d k
    by (simp add: decode_field_def cong: pyval.case_cong)
  have yd: "yaml_dump_to (env\<lparr>os_fault := g\<rparr>) d p = yaml_dump_to env d p" for d p
    by (simp add: yaml_dump_to_def wr cong: sum.case_cong)
  show "read_traefik (env\<lparr>os_fault := g\<rparr>) tp dn = read_traefik env tp dn"
    by (simp add: read_traefik_def r df)
  show "compare_config (env\<lparr>os_fault := g\<rparr>) ap cert key = compare_config env ap cert key"
    by (simp add: compare_config_def r)
  show "backup_and_write (env\<lparr>os_fault := g\<rparr>) ap cfg = backup_and_write env ap cfg"
    by (simp add: backup_and_write_def create_backup_def shutil_copy2_def yd r ow wr cm
        cong: option.case_cong)
qed

lemma fix_permissions_success:
  assumes "fix_permissions env p w = (Inr (), w')"
  shows "os_fault env (Chmod p) = None \<and> os_fault env (Chown p) = None \<and>
         (\<exists>i. fs w p = Some i \<and> fs w' = (fs w)(p \<mapsto> i\<lparr>mode := 420, uid := 0, gid := 0\<rparr>) \<and>
              history w' = history w @ [fs w, (fs w)(p \<mapsto> i\<lparr>mode := 420\<rparr>)])"
  using assms
  by (auto simp: fix_permissions_def io_defs os_chmod_def os_chown_def commit_def
      split: option.splits)

lemma fix_permissions_chmod_fails:
  assumes "os_fault env (Chmod p) = Some e"
  shows "fix_permissions env p w =
           (Inl e, w\<lparr>logged := logged w @ [''Fixing AdGuardHome permissions'']\<rparr>)"
  using assms by (simp add: fix_permissions_def io_defs os_chmod_def)

lemma fix_permissions_chown_fails:
  assumes "os_fault env (Chmod p) = None" and "os_fault env (Chown p) = Some e" and "fs w p = Some i"
  shows "fix_permissions env p w =
           (Inl e, commit ((fs w)(p \<mapsto> i\<lparr>mode := 420\<rparr>))
                     (w\<lparr>logged := logged w @ [''Fixing AdGuardHome permissions'']\<rparr>))"
  using assms by (simp add: fix_permissions_def io_defs os_chmod_def os_chown_def commit_def)

lemma written_run:
  assumes run: "run env tp ap dn (init_world fs0) = (Inr (), w')" and h: "history w' \<noteq> []"
  obtains cert key w1 config2 w2 w3 t s where
    "read_traefik env tp dn
       ((init_world fs0)\<lparr>str_presenter := True, logged := logged (init_world fs0) @ [''Initializing...'']\<rparr>) =
       (Inr (cert, key), w1)"
    "compare_config env ap cert key w1 = (Inr (config2, True), w2)"
    "backup_and_write env ap config2 w2 = (Inr (), w3)"
    "fs w1 = fs0" "fs0 ap = Some t"
    "yaml_dump env True config2 = Inr s" "fs w3 ap = Some (t\<lparr>content := s\<rparr>)"
    "os_fault env (Chmod ap) = None" "os_fault env (Chown ap) = None"
    "fs w' = (fs w3)(ap \<mapsto> t\<lparr>content := s, mode := 420, uid := 0, gid := 0\<rparr>)"
    "history w' = history w3 @ [fs w3, (fs w3)(ap \<mapsto> t\<lparr>content := s, mode := 420\<rparr>)]"
  using run
proof (cases rule: run_success_cases)
  case (unchanged cert key w1 config2 w2)
  from log_onlyD[OF log_only_read_traefik unchanged(1)] obtain l1 where
    "w1 = (init_world fs0)\<lparr>str_presenter := True, logged := l1\<rparr>" by auto
  moreover from log_onlyD[OF log_only_compare_config unchanged(2)] obtain l2 where
    "w2 = w1\<lparr>logged := l2\<rparr>" by auto
  ultimately have "history w' = []" using unchanged(3) by (simp add: init_world_def)
  with h show ?thesis by simp
next
  case (written cert key w1 config2 w2 w3 w4)
  from log_onlyD[OF log_only_read_traefik written(1)] obtain l1 where
    w1: "w1 = (init_world fs0)\<lparr>str_presenter := True, logged := l1\<rparr>" by auto
  from log_onlyD[OF log_only_compare_config written(2)] obtain l2 where
    w2: "w2 = w1\<lparr>logged := l2\<rparr>" by auto
  have f1: "fs w1 = fs0" and f2: "fs w2 = fs0" "str_presenter w2 = True"
    by (simp_all add: w1 w2 init_world_def)
  from compare_config_result[OF written(2)] obtain t where "fs w1 ap = Some t" by blast
  then have t: "fs0 ap = Some t" and t2: "fs w2 ap = Some t" using f1 f2 by simp_all
  from backup_and_write_moments[OF written(3) t2, THEN conjunct2, THEN conjunct2, rule_format, OF refl]
  obtain s where s: "yaml_dump env True config2 = Inr s" "fs w3 ap = Some (t\<lparr>content := s\<rparr>)"
    unfolding f2 by blast
  from fix_permissions_success[OF written(4)] s(2)
  have fp: "os_fault env (Chmod ap) = None" "os_fault env (Chown ap) = None"
    "fs w4 = (fs w3)(ap \<mapsto> t\<lparr>content := s, mode := 420, uid := 0, gid := 0\<rparr>)"
    "history w4 = history w3 @ [fs w3, (fs w3)(ap \<mapsto> t\<lparr>content := s, mode := 420\<rparr>)]"
    by auto
  have "fs w' = fs w4" "history w' = history w4" by (simp_all add: written(5))
  with fp that[OF written(1,2,3) f1 t s fp(1,2)] show ?thesis by simp
qed

subsection \<open>Permissions and ownership\<close>

lemma example_final:
  "fs (snd (run example_env ''/acme.json'' ''/AdGuardHome.yaml'' [] (init_world example_fs)))
     ''/AdGuardHome.yaml'' = Some \<lparr>content = new_yaml, mode = 420, uid = 0, gid = 0\<rparr>"
  "history (snd (run example_env ''/acme.json'' ''/AdGuardHome.yaml'' [] (init_world example_fs))) \<noteq> []"
  "last (history (snd (run example_env ''/acme.json'' ''/AdGuardHome.yaml'' [] (init_world example_fs))))
     ''/AdGuardHome.yaml'' = Some \<lparr>content = new_yaml, mode = 420, uid = 1000, gid = 1000\<rparr>"
proof -
  let ?w = "snd (run example_env ''/acme.json'' ''/AdGuardHome.yaml'' [] (init_world example_fs))"
  have ms: "history ?w @ [fs ?w] = example_moments" using example_run by (simp add: moments_def)
  then have "fs ?w = last example_moments" "history ?w = butlast example_moments"
    by (metis last_snoc, metis butlast_snoc)
  then show
    "fs ?w ''/AdGuardHome.yaml'' = Some \<lparr>content = new_yaml, mode = 420, uid = 0, gid = 0\<rparr>"
    "history ?w \<noteq> []"
    "last (history ?w) ''/AdGuardHome.yaml'' =
       Some \<lparr>content = new_yaml, mode = 420, uid = 1000, gid = 1000\<rparr>"
    by (simp_all add: example_moments_def)
qed

text \<open>
  C9. Take any run that returns normally after it has written (the file system has changed).
  Then the target ends with mode 0644 (420) and owner and group 0. Had the operating system
  refused the \<^verbatim>\<open>chmod\<close>, or the \<^verbatim>\<open>chown\<close>, of the target with an exception \<open>e\<close>, everything
  else being equal, the run would have ended with \<open>e\<close> uncaught (exit status 1), and the
  target would hold the same new content: nothing is rolled back.
\<close>

theorem permissions_fixed_after_write:
  assumes "run env tp ap dn (init_world fs0) = (Inr (), w')" and "history w' \<noteq> []"
  shows "\<exists>i. fs w' ap = Some i \<and> mode i = 420 \<and> uid i = 0 \<and> gid i = 0 \<and>
           (\<forall>e. \<exists>w''. run (env\<lparr>os_fault := (os_fault env)(Chmod ap \<mapsto> e)\<rparr>) tp ap dn (init_world fs0) =
                         (Inl e, w'') \<and>
                       exit_status (Inl e :: error + unit) = 1 \<and>
                       (\<exists>j. fs w'' ap = Some j \<and> content j = content i)) \<and>
           (\<forall>e. \<exists>w''. run (env\<lparr>os_fault := (os_fault env)(Chown ap \<mapsto> e)\<rparr>) tp ap dn (init_world fs0) =
                         (Inl e, w'') \<and>
                       exit_status (Inl e :: error + unit) = 1 \<and>
                       (\<exists>j. fs w'' ap = Some j \<and> content j = content i))"
  using assms
proof (cases rule: written_run)
  case (1 cert key w1 config2 w2 w3 t s)
  let ?i = "t\<lparr>content := s, mode := 420, uid := 0, gid := 0\<rparr>"
  have i: "fs w' ap = Some ?i" by (simp add: 1(10))
  have chmod: "\<exists>w''. run (env\<lparr>os_fault := (os_fault env)(Chmod ap \<mapsto> e)\<rparr>) tp ap dn (init_world fs0) =
                         (Inl e, w'') \<and>
                       exit_status (Inl e :: error + unit) = 1 \<and>
                       (\<exists>j. fs w'' ap = Some j \<and> content j = content ?i)" for e
  proof -
    let ?env = "env\<lparr>os_fault := (os_fault env)(Chmod ap \<mapsto> e)\<rparr>"
    have g: "\<And>c. c \<noteq> Chmod ap \<Longrightarrow> c \<noteq> Chown ap \<Longrightarrow> ((os_fault env)(Chmod ap \<mapsto> e)) c = os_fault env c"
      by simp
    have "fix_permissions ?env ap w3 =
           (Inl e, w3\<lparr>logged := logged w3 @ [''Fixing AdGuardHome permissions'']\<rparr>)"
      by (rule fix_permissions_chmod_fails) simp
    moreover have "read_traefik ?env tp dn
       ((init_world fs0)\<lparr>str_presenter := True, logged := logged (init_world fs0) @ [''Initializing...'']\<rparr>) =
       (Inr (cert, key), w1)"
      using 1(1) by (simp add: other_faults(1)[where ap=ap])
    moreover have "compare_config ?env ap cert key w1 = (Inr (config2, True), w2)"
      using 1(2) by (simp add: other_faults(2)[where ap=ap])
    moreover have "backup_and_write ?env ap config2 w2 = (Inr (), w3)"
      using 1(3) by (simp add: other_faults(3)[where ap=ap])
    ultimately have "run ?env tp ap dn (init_world fs0) =
        (Inl e, w3\<lparr>logged := logged w3 @ [''Fixing AdGuardHome permissions'']\<rparr>)"
      by (intro run_compose)
    then show ?thesis using 1(7) by (simp add: exit_status_def)
  qed
  have chown: "\<exists>w''. run (env\<lparr>os_fault := (os_fault env)(Chown ap \<mapsto> e)\<rparr>) tp ap dn (init_world fs0) =
                         (Inl e, w'') \<and>
                       exit_status (Inl e :: error + unit) = 1 \<and>
                       (\<exists>j. fs w'' ap = Some j \<and> content j = content ?i)" for e
  proof -
    let ?env = "env\<lparr>os_fault := (os_fault env)(Chown ap \<mapsto> e)\<rparr>"
    have g: "\<And>c. c \<noteq> Chmod ap \<Longrightarrow> c \<noteq> Chown ap \<Longrightarrow> ((os_fault env)(Chown ap \<mapsto> e)) c = os_fault env c"
      by simp
    have "fix_permissions ?env ap w3 =
           (Inl e, commit ((fs w3)(ap \<mapsto> t\<lparr>content := s\<rparr>\<lparr>mode := 420\<rparr>))
                     (w3\<lparr>logged := logged w3 @ [''Fixing AdGuardHome permissions'']\<rparr>))"
      by (rule fix_permissions_chown_fails) (simp_all add: 1(8) 1(7))
    moreover have "read_traefik ?env tp dn
       ((init_world fs0)\<lparr>str_presenter := True, logged := logged (init_world fs0) @ [''Initializing...'']\<rparr>) =
       (Inr (cert, key), w1)"
      using 1(1) by (simp add: other_faults(1)[where ap=ap])
    moreover have "compare_config ?env ap cert key w1 = (Inr (config2, True), w2)"
      using 1(2) by (simp add: other_faults(2)[where ap=ap])
    moreover have "backup_and_write ?env ap config2 w2 = (Inr (), w3)"
      using 1(3) by (simp add: other_faults(3)[where ap=ap])
    ultimately have "run ?env tp ap dn (init_world fs0) =
        (Inl e, commit ((fs w3)(ap \<mapsto> t\<lparr>content := s\<rparr>\<lparr>mode := 420\<rparr>))
                     (w3\<lparr>logged := logged w3 @ [''Fixing AdGuardHome permissions'']\<rparr>))"
      by (intro run_compose)
    then show ?thesis by (simp add: exit_status_def)
  qed
  show ?thesis
    using i chmod chown by (intro exI[of _ ?i]) simp
qed

theorem permissions_fixed_after_write_witness:
  "\<exists>i. fs (snd (run example_env ''/acme.json'' ''/AdGuardHome.yaml'' [] (init_world example_fs)))
          ''/AdGuardHome.yaml'' = Some i \<and>
       content i = new_yaml \<and> mode i = 420 \<and> uid i = 0 \<and> gid i = 0 \<and>
       (\<exists>w''. run (example_env\<lparr>os_fault := (os_fault example_env)(Chmod ''/AdGuardHome.yaml'' \<mapsto> PermissionError)\<rparr>)
                ''/acme.json'' ''/AdGuardHome.yaml'' [] (init_world example_fs) = (Inl PermissionError, w'') \<and>
              (\<exists>j. fs w'' ''/AdGuardHome.yaml'' = Some j \<and> content j = new_yaml)) \<and>
       (\<exists>w''. run (example_env\<lparr>os_fault := (os_fault example_env)(Chown ''/AdGuardHome.yaml'' \<mapsto> PermissionError)\<rparr>)
                ''/acme.json'' ''/AdGuardHome.yaml'' [] (init_world example_fs) = (Inl PermissionError, w'') \<and>
              (\<exists>j. fs w'' ''/AdGuardHome.yaml'' = Some j \<and> content j = new_yaml))"
proof -
  let ?w = "snd (run example_env ''/acme.json'' ''/AdGuardHome.yaml'' [] (init_world example_fs))"
  from permissions_fixed_after_write[OF example_run_eq example_final(2)]
  obtain i where i: "fs ?w ''/AdGuardHome.yaml'' = Some i"
    and a: "\<forall>e. \<exists>w''. run (example_env\<lparr>os_fault := (os_fault example_env)(Chmod ''/AdGuardHome.yaml'' \<mapsto> e)\<rparr>)
                ''/acme.json'' ''/AdGuardHome.yaml'' [] (init_world example_fs) = (Inl e, w'') \<and>
              exit_status (Inl e :: error + unit) = 1 \<and>
              (\<exists>j. fs w'' ''/AdGuardHome.yaml'' = Some j \<and> content j = content i)"
    and b: "\<forall>e. \<exists>w''. run (example_env\<lparr>os_fault := (os_fault example_env)(Chown ''/AdGuardHome.yaml'' \<mapsto> e)\<rparr>)
                ''/acme.json'' ''/AdGuardHome.yaml'' [] (init_world example_fs) = (Inl e, w'') \<and>
              exit_status (Inl e :: error + unit) = 1 \<and>
              (\<exists>j. fs w'' ''/AdGuardHome.yaml'' = Some j \<and> content j = content i)"
    by (elim exE conjE)
  from i have c: "content i = new_yaml" "mode i = 420" "uid i = 0" "gid i = 0"
    using example_final(1) by auto
  from a[rule_format, of PermissionError] b[rule_format, of PermissionError] i c
  show ?thesis by (intro exI[of _ i]) auto
qed

text \<open>
  C10. Take any run that returns normally after it has written. In that run the last state
  of the file system before the final one already has the target with mode 0644, the new
  content and the owner and group it had before the run: \<^verbatim>\<open>chmod\<close> comes before \<^verbatim>\<open>chown\<close>.
  Had the \<^verbatim>\<open>chown\<close> been refused with an exception \<open>e\<close> (with \<^verbatim>\<open>PermissionError\<close>, say), the
  run would have ended with \<open>e\<close> and left the target in exactly that intermediate state.
\<close>

theorem chown_failure_leaves_mode_set:
  assumes "run env tp ap dn (init_world fs0) = (Inr (), w')" and "history w' \<noteq> []"
    and "fs0 ap = Some t"
  shows "\<exists>i j w''. fs w' ap = Some i \<and>
           last (history w') ap = Some j \<and>
           run (env\<lparr>os_fault := (os_fault env)(Chown ap \<mapsto> e)\<rparr>) tp ap dn (init_world fs0) = (Inl e, w'') \<and>
           fs w'' ap = Some j \<and>
           mode j = 420 \<and> content j = content i \<and> uid j = uid t \<and> gid j = gid t"
  using assms(1,2)
proof (cases rule: written_run)
  case (1 cert key w1 config2 w2 w3 t' s)
  have t': "t' = t" using 1(5) assms(3) by simp
  let ?i = "t\<lparr>content := s, mode := 420, uid := 0, gid := 0\<rparr>"
  let ?j = "t\<lparr>content := s, mode := 420\<rparr>"
  let ?env = "env\<lparr>os_fault := (os_fault env)(Chown ap \<mapsto> e)\<rparr>"
  have g: "\<And>c. c \<noteq> Chmod ap \<Longrightarrow> c \<noteq> Chown ap \<Longrightarrow> ((os_fault env)(Chown ap \<mapsto> e)) c = os_fault env c"
    by simp
  have "fix_permissions ?env ap w3 =
           (Inl e, commit ((fs w3)(ap \<mapsto> t\<lparr>content := s\<rparr>\<lparr>mode := 420\<rparr>))
                     (w3\<lparr>logged := logged w3 @ [''Fixing AdGuardHome permissions'']\<rparr>))"
    by (rule fix_permissions_chown_fails) (simp_all add: 1(8) 1(7)[unfolded t'])
  moreover have "read_traefik ?env tp dn
       ((init_world fs0)\<lparr>str_presenter := True, logged := logged (init_world fs0) @ [''Initializing...'']\<rparr>) =
       (Inr (cert, key), w1)"
    using 1(1) by (simp add: other_faults(1)[where ap=ap])
  moreover have "compare_config ?env ap cert key w1 = (Inr (config2, True), w2)"
    using 1(2) by (simp add: other_faults(2)[where ap=ap])
  moreover have "backup_and_write ?env ap config2 w2 = (Inr (), w3)"
    using 1(3) by (simp add: other_faults(3)[where ap=ap])
  ultimately have "run ?env tp ap dn (init_world fs0) =
        (Inl e, commit ((fs w3)(ap \<mapsto> t\<lparr>content := s\<rparr>\<lparr>mode := 420\<rparr>))
                     (w3\<lparr>logged := logged w3 @ [''Fixing AdGuardHome permissions'']\<rparr>))"
    by (intro run_compose)
  then have r: "run ?env tp ap dn (init_world fs0) =
           (Inl e, commit ((fs w3)(ap \<mapsto> ?j))
                     (w3\<lparr>logged := logged w3 @ [''Fixing AdGuardHome permissions'']\<rparr>))"
    by simp
  have "fs w' ap = Some ?i" "last (history w') ap = Some ?j"
    by (simp_all add: 1(10,11) t')
  with r have "fs w' ap = Some ?i \<and>
           last (history w') ap = Some ?j \<and>
           run ?env tp ap dn (init_world fs0) =
             (Inl e, commit ((fs w3)(ap \<mapsto> ?j))
                     (w3\<lparr>logged := logged w3 @ [''Fixing AdGuardHome permissions'']\<rparr>)) \<and>
           fs (commit ((fs w3)(ap \<mapsto> ?j))
                     (w3\<lparr>logged := logged w3 @ [''Fixing AdGuardHome permissions'']\<rparr>)) ap = Some ?j \<and>
           mode ?j = 420 \<and> content ?j = content ?i \<and> uid ?j = uid t \<and> gid ?j = gid t"
    by simp
  then show ?thesis by blast
qed

theorem chown_failure_leaves_mode_set_witness:
  "\<exists>w''. run (example_env\<lparr>os_fault := (os_fault example_env)(Chown ''/AdGuardHome.yaml'' \<mapsto> PermissionError)\<rparr>)
            ''/acme.json'' ''/AdGuardHome.yaml'' [] (init_world example_fs) = (Inl PermissionError, w'') \<and>
         fs w'' ''/AdGuardHome.yaml'' =
           Some \<lparr>content = new_yaml, mode = 420, uid = 1000, gid = 1000\<rparr>"
proof -
  let ?w = "snd (run example_env ''/acme.json'' ''/AdGuardHome.yaml'' [] (init_world example_fs))"
  from chown_failure_leaves_mode_set[OF example_run_eq example_final(2) example_moments_nth(4),
      of PermissionError]
  obtain i j w'' where "fs ?w ''/AdGuardHome.yaml'' = Some i"
    "last (history ?w) ''/AdGuardHome.yaml'' = Some j"
    "run (example_env\<lparr>os_fault := (os_fault example_env)(Chown ''/AdGuardHome.yaml'' \<mapsto> PermissionError)\<rparr>)
            ''/acme.json'' ''/AdGuardHome.yaml'' [] (init_world example_fs) = (Inl PermissionError, w'')"
    "fs w'' ''/AdGuardHome.yaml'' = Some j"
    by (elim exE conjE)
  then show ?thesis using example_final(3) by (intro exI[of _ w'']) simp
qed

section \<open>The written document, and the run that finds nothing to do\<close>









end
